theory Spec2Isabelle
  imports Main
begin

section \<open>JavaScript values as the handlers see them\<close>

text \<open>
  The socket handlers of \<^verbatim>\<open>server/server.js\<close> receive whatever a client put on the
  wire: a JSON value, or nothing at all. The handlers use \<^verbatim>\<open>||\<close>, \<^verbatim>\<open>!\<close>,
  \<^verbatim>\<open>typeof\<close>, property reads and \<^verbatim>\<open>String(...)\<close> on these values, so the model
  keeps them dynamically typed.

  Strings are lists of \<^typ>\<open>char\<close>: code units below 256.

  The handlers can observe two things of a number: whether it is truthy (it is neither
  \<open>0\<close> nor \<^verbatim>\<open>NaN\<close>) and what \<^verbatim>\<open>String(n)\<close> prints for it. How the runtime
  prints a number is not the server's code, so \<open>JNum t str\<close> is a number by these two
  observations: \<open>t\<close> its truth value and \<open>str\<close> its printed form.

  The one value that is not data is the acknowledgement function that socket.io appends
  to the arguments of a listener; \<open>JFun src\<close> is a function whose source text, which is
  what \<^verbatim>\<open>String(f)\<close> gives, is \<open>src\<close>.
\<close>

datatype jsval =
    JUndefined
  | JNull
  | JBool bool
  | JNum bool string
  | JStr string
  | JObj "(string \<times> jsval) list"
  | JArr "jsval list"
  | JFun string

datatype fault = TypeError

text \<open>ToBoolean: what \<^verbatim>\<open>!v\<close>, \<^verbatim>\<open>v || w\<close> and \<^verbatim>\<open>if (v)\<close> test.\<close>

fun truthy :: "jsval \<Rightarrow> bool" where
  "truthy JUndefined = False"
| "truthy JNull = False"
| "truthy (JBool b) = b"
| "truthy (JNum t str) = t"
| "truthy (JStr s) = (s \<noteq> [])"
| "truthy (JObj kvs) = True"
| "truthy (JArr vs) = True"
| "truthy (JFun src) = True"

text \<open>\<^verbatim>\<open>a || b\<close>\<close>

definition js_or :: "jsval \<Rightarrow> jsval \<Rightarrow> jsval" where
  "js_or a b = (if truthy a then a else b)"

text \<open>
  A parameter default \<^verbatim>\<open>(payload = {}, callback)\<close> replaces \<^verbatim>\<open>undefined\<close> only;
  \<^verbatim>\<open>null\<close> stays \<^verbatim>\<open>null\<close>.
\<close>

definition param_default :: "jsval \<Rightarrow> jsval" where
  "param_default p = (if p = JUndefined then JObj [] else p)"

text \<open>
  \<^verbatim>\<open>v.k\<close> for the property names the handlers read (\<^verbatim>\<open>username\<close>, \<^verbatim>\<open>room\<close>,
  \<^verbatim>\<open>text\<close>, \<^verbatim>\<open>to\<close>, \<^verbatim>\<open>isTyping\<close>, \<^verbatim>\<open>messageId\<close>), none of which a
  prototype defines: reading from \<^verbatim>\<open>undefined\<close> or \<^verbatim>\<open>null\<close> throws, an object
  gives its own property, everything else (a function too) gives \<^verbatim>\<open>undefined\<close>.
\<close>

fun js_get :: "jsval \<Rightarrow> string \<Rightarrow> fault + jsval" where
  "js_get JUndefined k = Inl TypeError"
| "js_get JNull k = Inl TypeError"
| "js_get (JObj kvs) k = (case map_of kvs k of Some v \<Rightarrow> Inr v | None \<Rightarrow> Inr JUndefined)"
| "js_get v k = Inr JUndefined"

text \<open>
  \<^verbatim>\<open>String(v)\<close>. An object parsed from JSON that has an own property
  \<^verbatim>\<open>toString\<close> shadows \<^verbatim>\<open>Object.prototype.toString\<close> with a value that is not
  callable, and the inherited \<^verbatim>\<open>valueOf\<close> returns the object itself, so the
  conversion throws a TypeError; any other object is \<^verbatim>\<open>[object Object]\<close>. An array
  is its elements joined by commas, \<^verbatim>\<open>null\<close> and \<^verbatim>\<open>undefined\<close> elements
  giving the empty string.
\<close>

fun ToString :: "jsval \<Rightarrow> fault + string"
  and join_elems :: "jsval list \<Rightarrow> fault + string" where
  "ToString JUndefined = Inr ''undefined''"
| "ToString JNull = Inr ''null''"
| "ToString (JBool b) = Inr (if b then ''true'' else ''false'')"
| "ToString (JNum t str) = Inr str"
| "ToString (JStr s) = Inr s"
| "ToString (JObj kvs) =
     (if map_of kvs ''toString'' \<noteq> None then Inl TypeError else Inr ''[object Object]'')"
| "ToString (JArr vs) = join_elems vs"
| "ToString (JFun src) = Inr src"
| "join_elems [] = Inr []"
| "join_elems (v # vs) =
     (case (if v = JUndefined \<or> v = JNull then Inr [] else ToString v) of
        Inl e \<Rightarrow> Inl e
      | Inr a \<Rightarrow>
          (if vs = [] then Inr a
           else (case join_elems vs of Inl e \<Rightarrow> Inl e | Inr b \<Rightarrow> Inr (a @ '','' @ b))))"

text \<open>
  \<^verbatim>\<open>String.prototype.trim\<close>: the white space and line terminators among the code
  units below 256 are TAB, LF, VT, FF, CR, SPACE and NBSP.
\<close>

definition is_ws :: "char \<Rightarrow> bool" where
  "is_ws c = (c \<in> set [CHR 0x09, CHR 0x0A, CHR 0x0B, CHR 0x0C, CHR 0x0D, CHR 0x20, CHR 0xA0])"

definition trim :: "string \<Rightarrow> string" where
  "trim s = rev (dropWhile is_ws (rev (dropWhile is_ws s)))"

text \<open>\<^verbatim>\<open>s.slice(0, n)\<close>\<close>

definition slice0 :: "nat \<Rightarrow> string \<Rightarrow> string" where
  "slice0 n s = take n s"

text \<open>\<^verbatim>\<open>String(payload.k || d).trim()\<close>, the way every handler reads a text field.\<close>

definition trimmed_field :: "jsval \<Rightarrow> string \<Rightarrow> string \<Rightarrow> fault + string" where
  "trimmed_field payload k d =
     (case js_get payload k of
        Inl e \<Rightarrow> Inl e
      | Inr v \<Rightarrow>
          (case ToString (js_or v (JStr d)) of
             Inl e \<Rightarrow> Inl e
           | Inr str \<Rightarrow> Inr (trim str)))"

section \<open>Configuration\<close>

text \<open>
  \<^verbatim>\<open>Number(process.env.X) || d\<close>: an unset or unparsable variable is \<^verbatim>\<open>NaN\<close>
  (here \<open>None\<close>), and \<^verbatim>\<open>NaN\<close> and \<open>0\<close> both fall back to the default. The
  variables are counts, so the model reads natural numbers.
\<close>

record config =
  env_MAX_STORED_MESSAGES :: "nat option"
  env_MAX_MESSAGE_LENGTH :: "nat option"

definition number_or :: "nat option \<Rightarrow> nat \<Rightarrow> nat" where
  "number_or e d = (case e of None \<Rightarrow> d | Some n \<Rightarrow> if n = 0 then d else n)"

definition MAX_STORED_MESSAGES :: "config \<Rightarrow> nat" where
  "MAX_STORED_MESSAGES cfg = number_or (env_MAX_STORED_MESSAGES cfg) 200"

definition MAX_MESSAGE_LENGTH :: "config \<Rightarrow> nat" where
  "MAX_MESSAGE_LENGTH cfg = number_or (env_MAX_MESSAGE_LENGTH cfg) 1000"

section \<open>Server state\<close>

type_synonym sid = string

text \<open>\<^verbatim>\<open>socket.data\<close>: an empty object at connection; a property that is not set reads \<^verbatim>\<open>undefined\<close>.\<close>

record sockdata =
  d_username :: "string option"
  d_room :: "string option"

record user =
  u_id :: sid
  u_username :: string

record message =
  m_id :: nat
  m_text :: string
  m_sender :: string
  m_senderId :: sid
  m_timestamp :: string
  m_room :: jsval
  m_isPrivate :: bool

record pmessage =
  p_id :: nat
  p_text :: string
  p_sender :: string
  p_senderId :: sid
  p_recipientId :: sid
  p_timestamp :: string
  p_isPrivate :: bool

record receipt =
  r_messageId :: jsval
  r_readerId :: sid
  r_username :: string
  r_timestamp :: string

text \<open>The events the server emits, and the acknowledgements it passes to a callback.\<close>

datatype event =
    Ev_user_list "user list"
  | Ev_user_joined string sid
  | Ev_user_joined_room string sid string
  | Ev_user_left_room string sid string
  | Ev_receive_message message
  | Ev_private_message pmessage
  | Ev_typing_users "string list"
  | Ev_message_read receipt

datatype ack =
    Ack_ok
  | Ack_ok_id sid
  | Ack_ok_message nat string
  | Ack_error string

text \<open>
  What a handler does to the outside, in order: \<open>Emit x ev\<close> delivers \<open>ev\<close> to the
  socket \<open>x\<close>; \<open>Ack i a\<close> is one call of the callback that came with the request of
  socket \<open>i\<close>.
\<close>

datatype out = Emit sid event | Ack sid ack

text \<open>
  The three stores of the server (\<^verbatim>\<open>users\<close>, \<^verbatim>\<open>messages\<close>, \<^verbatim>\<open>typingUsers\<close>;
  a \<^verbatim>\<open>Map\<close> is a list of bindings in insertion order) and what socket.io keeps: the
  connected sockets, their \<^verbatim>\<open>socket.data\<close>, and the adapter's rooms (a room that
  does not exist has no members).
\<close>

record state =
  users :: "(sid \<times> user) list"
  messages :: "message list"
  typingUsers :: "(sid \<times> string) list"
  sockets :: "sid list"
  sdata :: "sid \<Rightarrow> sockdata"
  rooms :: "string \<Rightarrow> sid list"

text \<open>\<^verbatim>\<open>Date.now()\<close>, \<^verbatim>\<open>Math.floor(Math.random() * 1000)\<close> and
  \<^verbatim>\<open>new Date().toISOString()\<close> as the handler reads them.\<close>

record clock =
  now :: nat
  rnd :: nat
  iso :: string

subsection \<open>Map operations\<close>

text \<open>\<^verbatim>\<open>Map.prototype.set\<close>: an existing key keeps its place, a new key goes last.\<close>

primrec map_set :: "'k \<Rightarrow> 'v \<Rightarrow> ('k \<times> 'v) list \<Rightarrow> ('k \<times> 'v) list" where
  "map_set k v [] = [(k, v)]"
| "map_set k v (b # bs) = (if fst b = k then (k, v) # bs else b # map_set k v bs)"

definition map_delete :: "'k \<Rightarrow> ('k \<times> 'v) list \<Rightarrow> ('k \<times> 'v) list" where
  "map_delete k bs = filter (\<lambda>b. fst b \<noteq> k) bs"

definition map_has :: "('k \<times> 'v) list \<Rightarrow> 'k \<Rightarrow> bool" where
  "map_has bs k = (map_of bs k \<noteq> None)"

definition map_values :: "('k \<times> 'v) list \<Rightarrow> 'v list" where
  "map_values bs = map snd bs"

subsection \<open>socket.io: rooms and broadcast targets\<close>

text \<open>
  \<^verbatim>\<open>socket.join(room)\<close> adds the socket to the room's set (created when missing);
  \<^verbatim>\<open>socket.leave(room)\<close> removes it from that one room. Neither touches another room.
\<close>

definition socket_join :: "sid \<Rightarrow> string \<Rightarrow> state \<Rightarrow> state" where
  "socket_join i r s =
     s\<lparr>rooms := (rooms s)(r := (if i \<in> set (rooms s r) then rooms s r else rooms s r @ [i]))\<rparr>"

definition socket_leave :: "sid \<Rightarrow> string \<Rightarrow> state \<Rightarrow> state" where
  "socket_leave i r s = s\<lparr>rooms := (rooms s)(r := removeAll i (rooms s r))\<rparr>"

text \<open>\<^verbatim>\<open>adapter.rooms.get(k)\<close>: the keys of the adapter's map are strings.\<close>

definition adapter_get :: "state \<Rightarrow> jsval \<Rightarrow> sid list" where
  "adapter_get s k = (case k of JStr r \<Rightarrow> rooms s r | _ \<Rightarrow> [])"

definition uniq :: "'a list \<Rightarrow> 'a list" where
  "uniq xs = rev (remdups (rev xs))"

text \<open>
  The targets of \<^verbatim>\<open>io.to(room).emit\<close>: an array names several rooms; with no room
  at all the broadcast goes to every socket; otherwise to each connected member of a
  named room, once.
\<close>

definition io_to :: "state \<Rightarrow> jsval \<Rightarrow> sid list" where
  "io_to s v =
     (let keys = (case v of JArr vs \<Rightarrow> vs | _ \<Rightarrow> [v])
      in if keys = [] then sockets s
         else filter (\<lambda>x. x \<in> set (sockets s)) (uniq (concat (map (adapter_get s) keys))))"

text \<open>
  The targets of \<^verbatim>\<open>socket.to(room).emit\<close> for a string room: the connected members of
  the room, except the members of the room named by the socket's own id (socket.io 4
  excludes by room; the sender is the only member of that room unless somebody joined or
  left it).
\<close>

definition socket_to :: "state \<Rightarrow> sid \<Rightarrow> string \<Rightarrow> sid list" where
  "socket_to s i r = filter (\<lambda>x. x \<notin> set (rooms s i) \<and> x \<in> set (sockets s)) (rooms s r)"

definition emit_to :: "sid list \<Rightarrow> event \<Rightarrow> out list" where
  "emit_to targets ev = map (\<lambda>x. Emit x ev) targets"

text \<open>\<^verbatim>\<open>io.emit\<close> reaches every connected socket.\<close>

definition io_emit :: "state \<Rightarrow> event \<Rightarrow> out list" where
  "io_emit s ev = emit_to (sockets s) ev"

definition broadcastUserList :: "state \<Rightarrow> out list" where
  "broadcastUserList s = io_emit s (Ev_user_list (map_values (users s)))"

definition broadcastTypingUsers :: "state \<Rightarrow> out list" where
  "broadcastTypingUsers s = io_emit s (Ev_typing_users (map_values (typingUsers s)))"

text \<open>
  A new connection: socket.io registers the socket, gives it an empty \<^verbatim>\<open>data\<close> and
  joins it to the room named by its id.
\<close>

definition init_state :: state where
  "init_state = \<lparr>users = [], messages = [], typingUsers = [], sockets = [],
     sdata = (\<lambda>_. \<lparr>d_username = None, d_room = None\<rparr>), rooms = (\<lambda>_. [])\<rparr>"

definition connection :: "sid \<Rightarrow> state \<Rightarrow> state" where
  "connection i s =
     socket_join i i
       (s\<lparr>sockets := sockets s @ [i],
          sdata := (sdata s)(i := \<lparr>d_username = None, d_room = None\<rparr>)\<rparr>)"

subsection \<open>Pieces shared by the handlers\<close>

text \<open>\<^verbatim>\<open>if (typeof callback === 'function') callback(a)\<close>; socket.io's acknowledgement
  function sends a packet and does not throw.\<close>

definition call_ack :: "bool \<Rightarrow> sid \<Rightarrow> ack \<Rightarrow> out list" where
  "call_ack callback i a = (if callback then [Ack i a] else [])"

text \<open>
  A \<^verbatim>\<open>try\<close> block gives the state and the outputs at the point where it ended, and
  the fault when it ended by a throw. The \<^verbatim>\<open>catch\<close> of a handler with an
  acknowledgement calls the callback with the server error; the \<^verbatim>\<open>catch\<close> of the
  other handlers only logs.
\<close>

type_synonym tried = "state \<times> out list \<times> fault option"

definition catch_ack :: "bool \<Rightarrow> sid \<Rightarrow> tried \<Rightarrow> state \<times> out list" where
  "catch_ack callback i t =
     (case t of
        (s, outs, None) \<Rightarrow> (s, outs)
      | (s, outs, Some e) \<Rightarrow> (s, outs @ call_ack callback i (Ack_error ''Server error'')))"

definition catch_log :: "tried \<Rightarrow> state \<times> out list" where
  "catch_log t = (case t of (s, outs, _) \<Rightarrow> (s, outs))"

text \<open>\<^verbatim>\<open>socket.data.username || 'Anonymous'\<close>\<close>

definition username_or_anonymous :: "state \<Rightarrow> sid \<Rightarrow> string" where
  "username_or_anonymous s i =
     (case d_username (sdata s i) of
        None \<Rightarrow> ''Anonymous''
      | Some u \<Rightarrow> if u = [] then ''Anonymous'' else u)"

text \<open>\<^verbatim>\<open>payload.room || socket.data.room || null\<close>\<close>

definition resolve_room :: "jsval \<Rightarrow> state \<Rightarrow> sid \<Rightarrow> jsval" where
  "resolve_room payload_room s i =
     js_or (js_or payload_room (case d_room (sdata s i) of None \<Rightarrow> JUndefined | Some r \<Rightarrow> JStr r))
       JNull"

text \<open>\<^verbatim>\<open>messages.push(message); if (messages.length > MAX_STORED_MESSAGES) messages.shift()\<close>\<close>

definition store_message :: "nat \<Rightarrow> message \<Rightarrow> message list \<Rightarrow> message list" where
  "store_message n m ms =
     (let pushed = ms @ [m] in if length pushed > n then tl pushed else pushed)"

section \<open>The socket handlers\<close>

text \<open>
  Each handler is the closure of one socket \<open>i\<close>. It takes the state, the arguments the
  client sent and whether the last argument is a function, and gives the new state and
  what it emitted. The \<open>_try\<close> function is the body of the handler's \<^verbatim>\<open>try\<close>.
\<close>

subsection \<open>\<^verbatim>\<open>user_join\<close>\<close>

definition user_join_try :: "state \<Rightarrow> sid \<Rightarrow> jsval \<Rightarrow> bool \<Rightarrow> tried" where
  "user_join_try s i payload0 callback =
     (let payload = param_default payload0 in
      case trimmed_field payload ''username'' ''Anonymous'' of
        Inl e \<Rightarrow> (s, [], Some e)
      | Inr trimmed \<Rightarrow>
      (let username = slice0 50 trimmed in
       if username = [] then (s, call_ack callback i (Ack_error ''Invalid username''), None)
       else
        (let s1 = s\<lparr>sdata := (sdata s)(i := (sdata s i)\<lparr>d_username := Some username\<rparr>)\<rparr>;
             s2 = s1\<lparr>users := map_set i \<lparr>u_id = i, u_username = username\<rparr> (users s1)\<rparr>
         in case js_get payload ''room'' of
              Inl e \<Rightarrow> (s2, [], Some e)
            | Inr rv \<Rightarrow>
            (case (if truthy rv
                   then (case ToString rv of
                           Inl e \<Rightarrow> Inl e
                         | Inr room \<Rightarrow>
                             (let s3 = socket_join i room s2;
                                  s4 = s3\<lparr>sdata := (sdata s3)(i := (sdata s3 i)\<lparr>d_room := Some room\<rparr>)\<rparr>
                              in Inr (s4, emit_to (socket_to s4 i room)
                                            (Ev_user_joined_room username i room))))
                   else Inr (s2, [])) of
               Inl e \<Rightarrow> (s2, [], Some e)
             | Inr (s5, outs) \<Rightarrow>
                 (s5, outs @ broadcastUserList s5 @ io_emit s5 (Ev_user_joined username i)
                        @ call_ack callback i (Ack_ok_id i), None)))))"

definition user_join :: "state \<Rightarrow> sid \<Rightarrow> jsval \<Rightarrow> bool \<Rightarrow> state \<times> out list" where
  "user_join s i payload callback = catch_ack callback i (user_join_try s i payload callback)"

subsection \<open>\<^verbatim>\<open>join_room\<close> and \<^verbatim>\<open>leave_room\<close>\<close>

text \<open>
  \<^verbatim>\<open>!room || typeof room !== 'string'\<close>. Past this test the room is a string that is
  not empty; the handlers below read the string out of the value by a \<open>case\<close> whose
  other branch is the same rejection.
\<close>

definition invalid_room :: "jsval \<Rightarrow> bool" where
  "invalid_room room = (\<not> truthy room \<or> (case room of JStr r \<Rightarrow> False | _ \<Rightarrow> True))"

definition join_room_try :: "state \<Rightarrow> sid \<Rightarrow> jsval \<Rightarrow> bool \<Rightarrow> tried" where
  "join_room_try s i room callback =
     (if invalid_room room then (s, call_ack callback i (Ack_error ''Invalid room''), None)
      else (case room of
              JStr r \<Rightarrow>
                (let s1 = socket_join i r s;
                     s2 = s1\<lparr>sdata := (sdata s1)(i := (sdata s1 i)\<lparr>d_room := Some r\<rparr>)\<rparr>;
                     username = username_or_anonymous s2 i
                 in (s2, emit_to (socket_to s2 i r) (Ev_user_joined_room username i r)
                           @ call_ack callback i Ack_ok, None))
            | _ \<Rightarrow> (s, call_ack callback i (Ack_error ''Invalid room''), None)))"

definition join_room :: "state \<Rightarrow> sid \<Rightarrow> jsval \<Rightarrow> bool \<Rightarrow> state \<times> out list" where
  "join_room s i room callback = catch_ack callback i (join_room_try s i room callback)"

definition leave_room_try :: "state \<Rightarrow> sid \<Rightarrow> jsval \<Rightarrow> bool \<Rightarrow> tried" where
  "leave_room_try s i room callback =
     (if invalid_room room then (s, call_ack callback i (Ack_error ''Invalid room''), None)
      else (case room of
              JStr r \<Rightarrow>
                (let s1 = socket_leave i r s;
                     s2 = s1\<lparr>sdata := (sdata s1)(i := (sdata s1 i)\<lparr>d_room := None\<rparr>)\<rparr>;
                     username = username_or_anonymous s2 i
                 in (s2, emit_to (socket_to s2 i r) (Ev_user_left_room username i r)
                           @ call_ack callback i Ack_ok, None))
            | _ \<Rightarrow> (s, call_ack callback i (Ack_error ''Invalid room''), None)))"

definition leave_room :: "state \<Rightarrow> sid \<Rightarrow> jsval \<Rightarrow> bool \<Rightarrow> state \<times> out list" where
  "leave_room s i room callback = catch_ack callback i (leave_room_try s i room callback)"

subsection \<open>\<^verbatim>\<open>send_message\<close>\<close>

definition send_message_try ::
  "config \<Rightarrow> clock \<Rightarrow> state \<Rightarrow> sid \<Rightarrow> jsval \<Rightarrow> bool \<Rightarrow> tried" where
  "send_message_try cfg clk s i messageData0 ack =
     (let messageData = param_default messageData0 in
      case trimmed_field messageData ''text'' [] of
        Inl e \<Rightarrow> (s, [], Some e)
      | Inr text \<Rightarrow>
      (if text = [] then (s, call_ack ack i (Ack_error ''Empty message''), None)
       else if length text > MAX_MESSAGE_LENGTH cfg
       then (s, call_ack ack i (Ack_error ''Message too long''), None)
       else
        (let sender = username_or_anonymous s i;
             id = now clk + rnd clk;
             timestamp = iso clk
         in case js_get messageData ''room'' of
              Inl e \<Rightarrow> (s, [], Some e)
            | Inr pr \<Rightarrow>
            (let room = resolve_room pr s i;
                 message = \<lparr>m_id = id, m_text = text, m_sender = sender, m_senderId = i,
                            m_timestamp = timestamp, m_room = room, m_isPrivate = False\<rparr>;
                 s1 = s\<lparr>messages := store_message (MAX_STORED_MESSAGES cfg) message (messages s)\<rparr>
             in (s1,
                 (if truthy room then emit_to (io_to s1 room) (Ev_receive_message message)
                  else io_emit s1 (Ev_receive_message message))
                 @ call_ack ack i (Ack_ok_message id timestamp), None)))))"

definition send_message ::
  "config \<Rightarrow> clock \<Rightarrow> state \<Rightarrow> sid \<Rightarrow> jsval \<Rightarrow> bool \<Rightarrow> state \<times> out list" where
  "send_message cfg clk s i messageData ack =
     catch_ack ack i (send_message_try cfg clk s i messageData ack)"

subsection \<open>\<^verbatim>\<open>private_message\<close>\<close>

definition private_message_try :: "clock \<Rightarrow> state \<Rightarrow> sid \<Rightarrow> jsval \<Rightarrow> bool \<Rightarrow> tried" where
  "private_message_try clk s i payload0 ack =
     (let payload = param_default payload0 in
      case trimmed_field payload ''to'' [] of
        Inl e \<Rightarrow> (s, [], Some e)
      | Inr to \<Rightarrow>
      (case trimmed_field payload ''text'' [] of
        Inl e \<Rightarrow> (s, [], Some e)
      | Inr text \<Rightarrow>
      (if to = [] \<or> text = [] then (s, call_ack ack i (Ack_error ''Invalid payload''), None)
       else if \<not> map_has (users s) to
       then (s, call_ack ack i (Ack_error ''Recipient not connected''), None)
       else
        (let sender = username_or_anonymous s i;
             id = now clk + rnd clk;
             timestamp = iso clk;
             message = \<lparr>p_id = id, p_text = text, p_sender = sender, p_senderId = i,
                        p_recipientId = to, p_timestamp = timestamp, p_isPrivate = True\<rparr>
         in (s,
             emit_to (io_to s (JStr to)) (Ev_private_message message)
             @ [Emit i (Ev_private_message message)]
             @ call_ack ack i (Ack_ok_message id timestamp), None)))))"

definition private_message :: "clock \<Rightarrow> state \<Rightarrow> sid \<Rightarrow> jsval \<Rightarrow> bool \<Rightarrow> state \<times> out list" where
  "private_message clk s i payload ack = catch_ack ack i (private_message_try clk s i payload ack)"

subsection \<open>\<^verbatim>\<open>typing\<close> and \<^verbatim>\<open>read_message\<close>\<close>

definition typing_try :: "state \<Rightarrow> sid \<Rightarrow> jsval \<Rightarrow> tried" where
  "typing_try s i payload0 =
     (let payload = param_default payload0 in
      case js_get payload ''isTyping'' of
        Inl e \<Rightarrow> (s, [], Some e)
      | Inr tv \<Rightarrow>
      (case js_get payload ''room'' of
        Inl e \<Rightarrow> (s, [], Some e)
      | Inr pr \<Rightarrow>
      (let isTyping = truthy tv;
           room = resolve_room pr s i;
           username = username_or_anonymous s i;
           s1 = (if isTyping then s\<lparr>typingUsers := map_set i username (typingUsers s)\<rparr>
                 else s\<lparr>typingUsers := map_delete i (typingUsers s)\<rparr>)
       in if truthy room
          then (let roomSockets = adapter_get s1 room;
                    typingInRoom = map (\<lambda>x. the (map_of (typingUsers s1) x))
                                     (filter (map_has (typingUsers s1)) roomSockets)
                in (s1, emit_to (io_to s1 room) (Ev_typing_users typingInRoom), None))
          else (s1, broadcastTypingUsers s1, None))))"

definition typing :: "state \<Rightarrow> sid \<Rightarrow> jsval \<Rightarrow> state \<times> out list" where
  "typing s i payload = catch_log (typing_try s i payload)"

definition read_message_try :: "clock \<Rightarrow> state \<Rightarrow> sid \<Rightarrow> jsval \<Rightarrow> tried" where
  "read_message_try clk s i payload0 =
     (let payload = param_default payload0 in
      case js_get payload ''messageId'' of
        Inl e \<Rightarrow> (s, [], Some e)
      | Inr messageId \<Rightarrow>
      (let readerId = i;
           username = username_or_anonymous s i
       in if \<not> truthy messageId then (s, [], None)
          else (case js_get payload ''room'' of
                  Inl e \<Rightarrow> (s, [], Some e)
                | Inr pr \<Rightarrow>
                (let room = resolve_room pr s i;
                     receipt = \<lparr>r_messageId = messageId, r_readerId = readerId,
                                r_username = username, r_timestamp = iso clk\<rparr>
                 in (s, (if truthy room then emit_to (io_to s room) (Ev_message_read receipt)
                         else io_emit s (Ev_message_read receipt)), None)))))"

definition read_message :: "clock \<Rightarrow> state \<Rightarrow> sid \<Rightarrow> jsval \<Rightarrow> state \<times> out list" where
  "read_message clk s i payload = catch_log (read_message_try clk s i payload)"

subsection \<open>How socket.io calls a listener\<close>

text \<open>
  \<^verbatim>\<open>socket.on(event, listener)\<close>: when the client emits the event, socket.io calls the
  listener with the arguments the client sent, in order, followed by the acknowledgement
  function when the client passed a callback as the last argument of its \<^verbatim>\<open>emit\<close>.
  The parameters of the listener bind by position; a parameter with no argument is
  \<^verbatim>\<open>undefined\<close>, and an argument beyond the parameters is dropped.
\<close>

definition received :: "jsval list \<Rightarrow> string option \<Rightarrow> jsval list" where
  "received sent ack = sent @ (case ack of None \<Rightarrow> [] | Some src \<Rightarrow> [JFun src])"

definition arg_at :: "jsval list \<Rightarrow> nat \<Rightarrow> jsval" where
  "arg_at args n = (if n < length args then args ! n else JUndefined)"

text \<open>\<^verbatim>\<open>typeof v === 'function'\<close>\<close>

definition typeof_function :: "jsval \<Rightarrow> bool" where
  "typeof_function v = (case v of JFun src \<Rightarrow> True | _ \<Rightarrow> False)"

text \<open>
  The listeners as registered: \<^verbatim>\<open>(payload = {}, callback) => ...\<close> for the five
  events with an acknowledgement (\<^verbatim>\<open>(room, callback)\<close> for the two room events),
  \<^verbatim>\<open>(payload = {}) => ...\<close> for the other two.
\<close>

definition on_user_join :: "state \<Rightarrow> sid \<Rightarrow> jsval list \<Rightarrow> state \<times> out list" where
  "on_user_join s i args = user_join s i (arg_at args 0) (typeof_function (arg_at args 1))"

definition on_join_room :: "state \<Rightarrow> sid \<Rightarrow> jsval list \<Rightarrow> state \<times> out list" where
  "on_join_room s i args = join_room s i (arg_at args 0) (typeof_function (arg_at args 1))"

definition on_leave_room :: "state \<Rightarrow> sid \<Rightarrow> jsval list \<Rightarrow> state \<times> out list" where
  "on_leave_room s i args = leave_room s i (arg_at args 0) (typeof_function (arg_at args 1))"

definition on_send_message ::
  "config \<Rightarrow> clock \<Rightarrow> state \<Rightarrow> sid \<Rightarrow> jsval list \<Rightarrow> state \<times> out list" where
  "on_send_message cfg clk s i args =
     send_message cfg clk s i (arg_at args 0) (typeof_function (arg_at args 1))"

definition on_private_message :: "clock \<Rightarrow> state \<Rightarrow> sid \<Rightarrow> jsval list \<Rightarrow> state \<times> out list" where
  "on_private_message clk s i args =
     private_message clk s i (arg_at args 0) (typeof_function (arg_at args 1))"

definition on_typing :: "state \<Rightarrow> sid \<Rightarrow> jsval list \<Rightarrow> state \<times> out list" where
  "on_typing s i args = typing s i (arg_at args 0)"

definition on_read_message :: "clock \<Rightarrow> state \<Rightarrow> sid \<Rightarrow> jsval list \<Rightarrow> state \<times> out list" where
  "on_read_message clk s i args = read_message clk s i (arg_at args 0)"

subsection \<open>Reading a trace of outputs\<close>

fun acks_of :: "out list \<Rightarrow> (sid \<times> ack) list" where
  "acks_of [] = []"
| "acks_of (Ack i a # os) = (i, a) # acks_of os"
| "acks_of (Emit x ev # os) = acks_of os"

fun emits_of :: "out list \<Rightarrow> (sid \<times> event) list" where
  "emits_of [] = []"
| "emits_of (Emit x ev # os) = (x, ev) # emits_of os"
| "emits_of (Ack i a # os) = emits_of os"

text \<open>The parts of what a \<^verbatim>\<open>try\<close> block gave.\<close>

definition tried_outs :: "tried \<Rightarrow> out list" where
  "tried_outs t = fst (snd t)"

definition thrown :: "tried \<Rightarrow> fault option" where
  "thrown t = snd (snd t)"

section \<open>Notions the properties are stated with\<close>

text \<open>A sequence of appends to the message log, each by \<^const>\<open>store_message\<close>.\<close>

definition append_all :: "nat \<Rightarrow> message list \<Rightarrow> message list \<Rightarrow> message list" where
  "append_all n ms log = foldl (\<lambda>l m. store_message n m l) log ms"

text \<open>
  The message that a \<^verbatim>\<open>send_message\<close> request of socket \<open>i\<close> asks the server to
  log: none when the text cannot be read, is empty or is too long.
\<close>

definition request_message :: "config \<Rightarrow> clock \<Rightarrow> state \<Rightarrow> sid \<Rightarrow> jsval \<Rightarrow> message option" where
  "request_message cfg clk s i md =
     (case trimmed_field (param_default md) ''text'' [] of
        Inl e \<Rightarrow> None
      | Inr text \<Rightarrow>
          if text = [] \<or> length text > MAX_MESSAGE_LENGTH cfg then None
          else (case js_get (param_default md) ''room'' of
                  Inl e \<Rightarrow> None
                | Inr pr \<Rightarrow>
                    Some \<lparr>m_id = now clk + rnd clk, m_text = text,
                          m_sender = username_or_anonymous s i, m_senderId = i,
                          m_timestamp = iso clk, m_room = resolve_room pr s i,
                          m_isPrivate = False\<rparr>))"

text \<open>
  A run of \<^verbatim>\<open>send_message\<close> events, each with the clock readings, the socket, the
  payload and whether a callback came with it; and the messages the run asks to log, in
  the order of the requests.
\<close>

type_synonym request = "clock \<times> sid \<times> jsval \<times> bool"

fun send_messages :: "config \<Rightarrow> request list \<Rightarrow> state \<Rightarrow> state" where
  "send_messages cfg [] s = s"
| "send_messages cfg ((clk, i, md, cb) # rs) s =
     send_messages cfg rs (fst (send_message cfg clk s i md cb))"

definition logged :: "config \<Rightarrow> request list \<Rightarrow> state \<Rightarrow> message list" where
  "logged cfg rs s = List.map_filter (\<lambda>(clk, i, md, cb). request_message cfg clk s i md) rs"


text \<open>
  \<^verbatim>\<open>users\<close> is a \<^verbatim>\<open>Map\<close> whose only writer is
  \<^verbatim>\<open>users.set(socket.id, { id: socket.id, username })\<close>: its keys are distinct and
  every entry carries its key.
\<close>

definition users_ok :: "state \<Rightarrow> bool" where
  "users_ok s = (distinct (map fst (users s)) \<and> list_all (\<lambda>b. u_id (snd b) = fst b) (users s))"

text \<open>The roster a \<^verbatim>\<open>user_list\<close> event carries (\<^verbatim>\<open>Array.from(users.values())\<close>).\<close>

definition roster :: "state \<Rightarrow> user list" where
  "roster s = map_values (users s)"

section \<open>Example runs\<close>

definition ex_cfg :: config where
  "ex_cfg = \<lparr>env_MAX_STORED_MESSAGES = Some 2, env_MAX_MESSAGE_LENGTH = Some 5\<rparr>"

definition ex_clk :: clock where
  "ex_clk = \<lparr>now = 1700000000000, rnd = 7, iso = ''2024-01-01T00:00:00.000Z''\<rparr>"

text \<open>Three sockets connect: \<open>a\<close>, \<open>b\<close> and \<open>c\<close>.\<close>

definition ex_abc :: state where
  "ex_abc = connection ''c'' (connection ''b'' (connection ''a'' init_state))"

definition ex_name :: "string \<Rightarrow> jsval" where
  "ex_name n = JObj [(''username'', JStr n)]"

definition ex_text :: "string \<Rightarrow> jsval" where
  "ex_text t = JObj [(''text'', JStr t)]"

text \<open>The acknowledgement function, by its source text.\<close>

definition ex_ack :: string where
  "ex_ack = ''function () { /* sends the ack packet */ }''"

definition ex_send :: "string \<Rightarrow> request" where
  "ex_send t = (ex_clk, ''a'', ex_text t, True)"

definition ex_private :: "string \<Rightarrow> string \<Rightarrow> jsval" where
  "ex_private to t = JObj [(''to'', JStr to), (''text'', JStr t)]"

text \<open>\<open>b\<close> then \<open>a\<close> join room \<open>A\<close>.\<close>

definition ex_in_A :: state where
  "ex_in_A = fst (join_room (fst (join_room ex_abc ''b'' (JStr ''A'') True)) ''a'' (JStr ''A'') True)"

text \<open>\<open>a\<close> and \<open>b\<close> announce themselves as Alice and Bob.\<close>

definition ex_alice_bob :: state where
  "ex_alice_bob =
     fst (user_join (fst (user_join ex_abc ''a'' (ex_name ''Alice'') True)) ''b'' (ex_name ''Bob'') True)"

text \<open>\<open>c\<close> then joins the room whose name is the socket id of \<open>b\<close>.\<close>

definition ex_eavesdrop :: state where
  "ex_eavesdrop = fst (join_room ex_alice_bob ''c'' (JStr ''b'') True)"

text \<open>What the message log holds for a message that \<open>a\<close> sent without a name.\<close>

definition ex_logged :: "string \<Rightarrow> message" where
  "ex_logged t = \<lparr>m_id = 1700000000007, m_text = t, m_sender = ''Anonymous'', m_senderId = ''a'',
     m_timestamp = ''2024-01-01T00:00:00.000Z'', m_room = JNull, m_isPrivate = False\<rparr>"

section \<open>Properties\<close>

subsection \<open>Evaluation of the example runs\<close>

lemma is_ws_simps:
  "is_ws c = (c = CHR 0x09 \<or> c = CHR 0x0A \<or> c = CHR 0x0B \<or> c = CHR 0x0C \<or> c = CHR 0x0D
     \<or> c = CHR 0x20 \<or> c = CHR 0xA0)"
  by (simp add: is_ws_def)

lemmas js_defs = js_or_def param_default_def trimmed_field_def trim_def slice0_def is_ws_simps
  invalid_room_def

lemmas io_defs = socket_join_def socket_leave_def adapter_get_def uniq_def io_to_def
  socket_to_def emit_to_def io_emit_def broadcastUserList_def broadcastTypingUsers_def
  map_values_def map_has_def map_delete_def call_ack_def catch_ack_def catch_log_def
  username_or_anonymous_def resolve_room_def store_message_def
  tried_outs_def thrown_def

lemmas ex_defs = ex_cfg_def ex_clk_def ex_abc_def ex_name_def ex_text_def ex_private_def
  init_state_def connection_def MAX_STORED_MESSAGES_def MAX_MESSAGE_LENGTH_def number_or_def

subsection \<open>Acknowledgements in a trace\<close>

lemma acks_of_append: "acks_of (xs @ ys) = acks_of xs @ acks_of ys"
  by (induction xs rule: acks_of.induct) simp_all

lemma acks_of_emit_to: "acks_of (emit_to ts ev) = []"
  unfolding emit_to_def by (induction ts) simp_all

lemma acks_of_io_emit: "acks_of (io_emit s ev) = []"
  by (simp add: io_emit_def acks_of_emit_to)

lemma acks_of_broadcastUserList: "acks_of (broadcastUserList s) = []"
  by (simp add: broadcastUserList_def acks_of_io_emit)

lemma acks_of_call_ack: "acks_of (call_ack cb i a) = (if cb then [(i, a)] else [])"
  by (simp add: call_ack_def)

lemmas acks_simps = acks_of_append acks_of_emit_to acks_of_io_emit acks_of_broadcastUserList
  acks_of_call_ack

text \<open>
  What the \<^verbatim>\<open>catch\<close> adds: nothing when the \<^verbatim>\<open>try\<close> ended normally, the server
  error when it threw.
\<close>

lemma catch_ack_acks:
  "acks_of (snd (catch_ack cb i t)) =
     acks_of (tried_outs t)
     @ (if thrown t \<noteq> None \<and> cb then [(i, Ack_error ''Server error'')] else [])"
  by (cases t) (auto simp: catch_ack_def thrown_def tried_outs_def acks_simps split: option.splits)

text \<open>
  Each \<^verbatim>\<open>try\<close> body calls the callback once on every path that ends normally, and not
  at all before a throw.
\<close>

lemma user_join_try_acks:
  "\<exists>a. acks_of (tried_outs (user_join_try s i p cb)) =
     (if thrown (user_join_try s i p cb) = None \<and> cb then [(i, a)] else [])"
  by (auto simp: user_join_try_def thrown_def tried_outs_def Let_def acks_simps
      split: sum.splits option.splits prod.splits)

lemma join_room_try_acks:
  "thrown (join_room_try s i r cb) = None \<and>
   (\<exists>a. acks_of (tried_outs (join_room_try s i r cb)) = (if cb then [(i, a)] else []))"
  by (auto simp: join_room_try_def thrown_def tried_outs_def Let_def acks_simps
      split: jsval.splits)

lemma leave_room_try_acks:
  "thrown (leave_room_try s i r cb) = None \<and>
   (\<exists>a. acks_of (tried_outs (leave_room_try s i r cb)) = (if cb then [(i, a)] else []))"
  by (auto simp: leave_room_try_def thrown_def tried_outs_def Let_def acks_simps
      split: jsval.splits)

lemma send_message_try_acks:
  "\<exists>a. acks_of (tried_outs (send_message_try cfg clk s i p cb)) =
     (if thrown (send_message_try cfg clk s i p cb) = None \<and> cb then [(i, a)] else [])"
  by (auto simp: send_message_try_def thrown_def tried_outs_def Let_def acks_simps
      split: sum.splits option.splits prod.splits)

lemma private_message_try_acks:
  "\<exists>a. acks_of (tried_outs (private_message_try clk s i p cb)) =
     (if thrown (private_message_try clk s i p cb) = None \<and> cb then [(i, a)] else [])"
  by (auto simp: private_message_try_def thrown_def tried_outs_def Let_def acks_simps
      split: sum.splits option.splits prod.splits)

lemma catch_ack_once:
  assumes "\<exists>a. acks_of (tried_outs t) = (if thrown t = None \<and> cb then [(i, a)] else [])"
  shows "\<exists>a. acks_of (snd (catch_ack cb i t)) = (if cb then [(i, a)] else []) \<and>
             (thrown t \<noteq> None \<longrightarrow> a = Ack_error ''Server error'')"
  using assms by (auto simp: catch_ack_acks)

text \<open>
  The handlers by their second parameter: when it is a function it is called exactly
  once, with the server error when the body threw; when it is not, nothing is
  acknowledged.
\<close>

lemma user_join_acks:
  "\<exists>a. acks_of (snd (user_join s i p cb)) = (if cb then [(i, a)] else []) \<and>
       (thrown (user_join_try s i p cb) \<noteq> None \<longrightarrow> a = Ack_error ''Server error'')"
  unfolding user_join_def by (rule catch_ack_once) (rule user_join_try_acks)

lemma send_message_acks:
  "\<exists>a. acks_of (snd (send_message cfg clk s i p cb)) = (if cb then [(i, a)] else []) \<and>
       (thrown (send_message_try cfg clk s i p cb) \<noteq> None \<longrightarrow> a = Ack_error ''Server error'')"
  unfolding send_message_def by (rule catch_ack_once) (rule send_message_try_acks)

lemma private_message_acks:
  "\<exists>a. acks_of (snd (private_message clk s i p cb)) = (if cb then [(i, a)] else []) \<and>
       (thrown (private_message_try clk s i p cb) \<noteq> None \<longrightarrow> a = Ack_error ''Server error'')"
  unfolding private_message_def by (rule catch_ack_once) (rule private_message_try_acks)

lemma join_room_acks:
  "\<exists>a. acks_of (snd (join_room s i r cb)) = (if cb then [(i, a)] else [])"
  using join_room_try_acks [of s i r cb] by (simp add: join_room_def catch_ack_acks)

lemma leave_room_acks:
  "\<exists>a. acks_of (snd (leave_room s i r cb)) = (if cb then [(i, a)] else [])"
  using leave_room_try_acks [of s i r cb] by (simp add: leave_room_def catch_ack_acks)

text \<open>
  Which argument reaches the second parameter. What the client sends is data; the only
  function among the arguments is the acknowledgement, in the last place. It is the second
  argument exactly when one argument was sent before it.
\<close>

lemma callback_bound:
  assumes "list_all (\<lambda>v. \<not> typeof_function v) sent"
  shows "typeof_function (arg_at (received sent ack) 1) = (ack \<noteq> None \<and> length sent = 1)"
proof (cases sent)
  case Nil
  then show ?thesis
    by (simp add: received_def arg_at_def typeof_function_def split: option.splits)
next
  case (Cons v vs)
  show ?thesis
  proof (cases vs)
    case Nil
    with Cons show ?thesis
      by (simp add: received_def arg_at_def typeof_function_def split: option.splits)
  next
    case (Cons w ws)
    with \<open>sent = v # vs\<close> assms show ?thesis
      by (simp add: received_def arg_at_def)
  qed
qed

lemma payload_bound:
  "length sent = 1 \<Longrightarrow> arg_at (received sent ack) 0 = arg_at sent 0"
  by (cases sent) (simp_all add: received_def arg_at_def)

text \<open>
  C1 as stated fails. The callback is the last argument of the client's \<^verbatim>\<open>emit\<close>,
  and the listeners take it as their second parameter. A client that emits
  \<^verbatim>\<open>user_join\<close> with a callback and no payload is registered as \<^verbatim>\<open>Anonymous\<close>,
  and one that emits \<^verbatim>\<open>join_room\<close> with a room, one more argument and a callback
  joins the room; in both runs the callback is never called.
\<close>

theorem ack_exactly_once_counterexample:
  "acks_of (snd (on_user_join ex_abc ''a'' (received [] (Some ex_ack)))) = [] \<and>
   d_username (sdata (fst (on_user_join ex_abc ''a'' (received [] (Some ex_ack)))) ''a'')
     = Some ''Anonymous'' \<and>
   acks_of (snd (on_join_room ex_abc ''a'' (received [JStr ''A'', JStr ''extra''] (Some ex_ack))))
     = [] \<and>
   rooms (fst (on_join_room ex_abc ''a'' (received [JStr ''A'', JStr ''extra''] (Some ex_ack)))) ''A''
     = [''a'']"
  by (simp add: on_user_join_def on_join_room_def received_def arg_at_def typeof_function_def
      user_join_def user_join_try_def join_room_def join_room_try_def catch_ack_def Let_def
      js_defs io_defs ex_defs acks_simps)

text \<open>
  C1, amended. For each of the five events with an acknowledgement, when the client
  supplies a callback: if it sent exactly one argument before the callback, the handler
  calls the callback exactly once, for the caller, and with the error
  \<^verbatim>\<open>Server error\<close> when the body of the handler threw; if it sent no argument or
  more than one, the callback is not the handler's second parameter and is never called.
  Without a callback nothing is acknowledged. (The bodies of \<^verbatim>\<open>join_room\<close> and
  \<^verbatim>\<open>leave_room\<close> never throw.)
\<close>

theorem ack_once_for_one_argument:
  assumes "list_all (\<lambda>v. \<not> typeof_function v) sent"
  shows
  "(length sent = 1 \<longrightarrow>
      (\<exists>a. acks_of (snd (on_user_join s i (received sent (Some f)))) = [(i, a)] \<and>
           (thrown (user_join_try s i (arg_at sent 0) True) \<noteq> None \<longrightarrow> a = Ack_error ''Server error'')) \<and>
      (\<exists>a. acks_of (snd (on_join_room s i (received sent (Some f)))) = [(i, a)]) \<and>
      (\<exists>a. acks_of (snd (on_leave_room s i (received sent (Some f)))) = [(i, a)]) \<and>
      (\<exists>a. acks_of (snd (on_send_message cfg clk s i (received sent (Some f)))) = [(i, a)] \<and>
           (thrown (send_message_try cfg clk s i (arg_at sent 0) True) \<noteq> None \<longrightarrow>
              a = Ack_error ''Server error'')) \<and>
      (\<exists>a. acks_of (snd (on_private_message clk s i (received sent (Some f)))) = [(i, a)] \<and>
           (thrown (private_message_try clk s i (arg_at sent 0) True) \<noteq> None \<longrightarrow>
              a = Ack_error ''Server error''))) \<and>
   (length sent \<noteq> 1 \<longrightarrow>
      acks_of (snd (on_user_join s i (received sent (Some f)))) = [] \<and>
      acks_of (snd (on_join_room s i (received sent (Some f)))) = [] \<and>
      acks_of (snd (on_leave_room s i (received sent (Some f)))) = [] \<and>
      acks_of (snd (on_send_message cfg clk s i (received sent (Some f)))) = [] \<and>
      acks_of (snd (on_private_message clk s i (received sent (Some f)))) = []) \<and>
   acks_of (snd (on_user_join s i (received sent None))) = [] \<and>
   acks_of (snd (on_join_room s i (received sent None))) = [] \<and>
   acks_of (snd (on_leave_room s i (received sent None))) = [] \<and>
   acks_of (snd (on_send_message cfg clk s i (received sent None))) = [] \<and>
   acks_of (snd (on_private_message clk s i (received sent None))) = []"
proof -
  note on_defs = on_user_join_def on_join_room_def on_leave_room_def on_send_message_def
    on_private_message_def
  have none: "typeof_function (arg_at (received sent None) (Suc 0)) = False"
    using callback_bound [OF assms, of None] by simp
  have some: "typeof_function (arg_at (received sent (Some f)) (Suc 0)) = (length sent = 1)"
    using callback_bound [OF assms, of "Some f"] by simp
  have without:
    "acks_of (snd (on_user_join s i (received sent None))) = []"
    "acks_of (snd (on_join_room s i (received sent None))) = []"
    "acks_of (snd (on_leave_room s i (received sent None))) = []"
    "acks_of (snd (on_send_message cfg clk s i (received sent None))) = []"
    "acks_of (snd (on_private_message clk s i (received sent None))) = []"
    using user_join_acks [of s i "arg_at (received sent None) 0" False]
      join_room_acks [of s i "arg_at (received sent None) 0" False]
      leave_room_acks [of s i "arg_at (received sent None) 0" False]
      send_message_acks [of cfg clk s i "arg_at (received sent None) 0" False]
      private_message_acks [of clk s i "arg_at (received sent None) 0" False]
    by (simp_all add: on_defs none)
  have unbound: "acks_of (snd (on_user_join s i (received sent (Some f)))) = [] \<and>
      acks_of (snd (on_join_room s i (received sent (Some f)))) = [] \<and>
      acks_of (snd (on_leave_room s i (received sent (Some f)))) = [] \<and>
      acks_of (snd (on_send_message cfg clk s i (received sent (Some f)))) = [] \<and>
      acks_of (snd (on_private_message clk s i (received sent (Some f)))) = []"
    if "length sent \<noteq> 1"
    using that
      user_join_acks [of s i "arg_at (received sent (Some f)) 0" False]
      join_room_acks [of s i "arg_at (received sent (Some f)) 0" False]
      leave_room_acks [of s i "arg_at (received sent (Some f)) 0" False]
      send_message_acks [of cfg clk s i "arg_at (received sent (Some f)) 0" False]
      private_message_acks [of clk s i "arg_at (received sent (Some f)) 0" False]
    by (simp add: on_defs some)
  have bound: "(\<exists>a. acks_of (snd (on_user_join s i (received sent (Some f)))) = [(i, a)] \<and>
           (thrown (user_join_try s i (arg_at sent 0) True) \<noteq> None \<longrightarrow> a = Ack_error ''Server error'')) \<and>
      (\<exists>a. acks_of (snd (on_join_room s i (received sent (Some f)))) = [(i, a)]) \<and>
      (\<exists>a. acks_of (snd (on_leave_room s i (received sent (Some f)))) = [(i, a)]) \<and>
      (\<exists>a. acks_of (snd (on_send_message cfg clk s i (received sent (Some f)))) = [(i, a)] \<and>
           (thrown (send_message_try cfg clk s i (arg_at sent 0) True) \<noteq> None \<longrightarrow>
              a = Ack_error ''Server error'')) \<and>
      (\<exists>a. acks_of (snd (on_private_message clk s i (received sent (Some f)))) = [(i, a)] \<and>
           (thrown (private_message_try clk s i (arg_at sent 0) True) \<noteq> None \<longrightarrow>
              a = Ack_error ''Server error''))"
    if "length sent = 1"
    using that
      user_join_acks [of s i "arg_at sent 0" True]
      join_room_acks [of s i "arg_at sent 0" True]
      leave_room_acks [of s i "arg_at sent 0" True]
      send_message_acks [of cfg clk s i "arg_at sent 0" True]
      private_message_acks [of clk s i "arg_at sent 0" True]
    by (simp add: on_defs some payload_bound)
  from without unbound bound show ?thesis by blast
qed

theorem ack_once_for_one_argument_witness:
  "list_all (\<lambda>v. \<not> typeof_function v) [JNull] \<and> length [JNull] = 1 \<and>
   thrown (user_join_try ex_abc ''a'' (arg_at [JNull] 0) True) \<noteq> None \<and>
   acks_of (snd (on_user_join ex_abc ''a'' (received [JNull] (Some ex_ack))))
     = [(''a'', Ack_error ''Server error'')] \<and>
   list_all (\<lambda>v. \<not> typeof_function v) [] \<and> length ([] :: jsval list) \<noteq> 1 \<and>
   acks_of (snd (on_send_message ex_cfg ex_clk ex_abc ''a'' (received [] (Some ex_ack)))) = []"
proof -
  have h1: "list_all (\<lambda>v. \<not> typeof_function v) [JNull]"
    by (simp add: typeof_function_def)
  have h2: "length [JNull] = 1" by simp
  have h3: "thrown (user_join_try ex_abc ''a'' (arg_at [JNull] 0) True) \<noteq> None"
    by (simp add: user_join_try_def js_defs thrown_def arg_at_def)
  have k1: "list_all (\<lambda>v. \<not> typeof_function v) []" by simp
  have k2: "length ([] :: jsval list) \<noteq> 1" by simp
  note one = ack_once_for_one_argument [OF h1, of ex_abc "''a''" ex_ack ex_cfg ex_clk]
  note zero = ack_once_for_one_argument [OF k1, of ex_abc "''a''" ex_ack ex_cfg ex_clk]
  from one h2 h3 have c1: "acks_of (snd (on_user_join ex_abc ''a'' (received [JNull] (Some ex_ack))))
     = [(''a'', Ack_error ''Server error'')]"
    by auto
  from zero k2 have c2:
    "acks_of (snd (on_send_message ex_cfg ex_clk ex_abc ''a'' (received [] (Some ex_ack)))) = []"
    by blast
  from h1 h2 h3 k1 k2 c1 c2 show ?thesis by blast
qed

subsection \<open>The message log\<close>

lemma store_message_length: "length log \<le> n \<Longrightarrow> length (store_message n m log) \<le> n"
  by (auto simp: store_message_def Let_def)

lemma append_all_length: "length log \<le> n \<Longrightarrow> length (append_all n ms log) \<le> n"
  unfolding append_all_def
  by (induction ms arbitrary: log) (auto simp: store_message_length)

text \<open>A log within the bound keeps exactly the newest \<open>n\<close> of everything it was given.\<close>

lemma append_all_drop:
  "length log \<le> n \<Longrightarrow> append_all n ms log = drop (length log + length ms - n) (log @ ms)"
  unfolding append_all_def
proof (induction ms arbitrary: log)
  case Nil
  then show ?case by simp
next
  case (Cons m ms)
  show ?case
  proof (cases "length log < n")
    case True
    then have st: "store_message n m log = log @ [m]"
      by (simp add: store_message_def Let_def)
    have "length (log @ [m]) \<le> n" using True by simp
    from Cons.IH [OF this] show ?thesis by (simp add: st)
  next
    case False
    with Cons.prems have eq: "length log = n" by simp
    then have st: "store_message n m log = tl (log @ [m])"
      by (simp add: store_message_def Let_def)
    have "length (tl (log @ [m])) \<le> n" using eq by simp
    from Cons.IH [OF this] have
      "foldl (\<lambda>l m. store_message n m l) (tl (log @ [m])) ms
         = drop (length (tl (log @ [m])) + length ms - n) (tl (log @ [m]) @ ms)" .
    also have "\<dots> = drop (length ms) (tl (log @ [m]) @ ms)" using eq by simp
    also have "\<dots> = drop (Suc (length ms)) ((log @ [m]) @ ms)"
      by (cases log) (simp_all add: drop_Suc)
    also have "\<dots> = drop (length log + length (m # ms) - n) (log @ m # ms)"
      using eq by simp
    finally show ?thesis by (simp add: st)
  qed
qed

text \<open>\<^verbatim>\<open>push\<close> then \<^verbatim>\<open>shift\<close>, on a log within the bound.\<close>

lemma store_message_push_shift:
  "store_message n m log = (if length log < n then log @ [m] else tl (log @ [m]))"
  by (auto simp: store_message_def Let_def)

text \<open>What one \<^verbatim>\<open>send_message\<close> does to the log, and that it leaves \<^verbatim>\<open>socket.data\<close> alone.\<close>

lemma send_message_logs:
  "messages (fst (send_message cfg clk s i md cb)) =
     (case request_message cfg clk s i md of
        None \<Rightarrow> messages s
      | Some m \<Rightarrow> store_message (MAX_STORED_MESSAGES cfg) m (messages s))"
  by (simp add: send_message_def send_message_try_def catch_ack_def request_message_def Let_def
      split: sum.splits)

lemma send_message_sdata: "sdata (fst (send_message cfg clk s i md cb)) = sdata s"
  by (simp add: send_message_def send_message_try_def catch_ack_def Let_def split: sum.splits)

lemma request_message_sdata:
  "sdata s' = sdata s \<Longrightarrow> request_message cfg clk s' i md = request_message cfg clk s i md"
  by (simp add: request_message_def username_or_anonymous_def resolve_room_def
      cong: sum.case_cong if_cong)

lemma logged_sdata:
  assumes "sdata s' = sdata s"
  shows "logged cfg rs s' = logged cfg rs s"
proof -
  have "request_message cfg clk s' i md = request_message cfg clk s i md" for clk i md
    using assms by (rule request_message_sdata)
  then show ?thesis by (simp add: logged_def)
qed

lemma logged_Cons:
  "logged cfg ((clk, i, md, cb) # rs) s =
     (case request_message cfg clk s i md of
        None \<Rightarrow> logged cfg rs s
      | Some m \<Rightarrow> m # logged cfg rs s)"
  by (simp add: logged_def map_filter_simps split: option.splits)

lemma send_messages_log:
  "messages (send_messages cfg rs s)
     = append_all (MAX_STORED_MESSAGES cfg) (logged cfg rs s) (messages s)"
proof (induction rs arbitrary: s)
  case Nil
  show ?case by (simp add: logged_def append_all_def map_filter_simps)
next
  case (Cons r rs)
  obtain clk i md cb where r: "r = (clk, i, md, cb)" by (cases r) auto
  let ?s = "fst (send_message cfg clk s i md cb)"
  have l: "logged cfg rs ?s = logged cfg rs s"
    by (rule logged_sdata) (rule send_message_sdata)
  show ?case
    unfolding r
    by (cases "request_message cfg clk s i md")
      (simp_all add: Cons.IH l logged_Cons send_message_logs append_all_def)
qed

text \<open>
  C4. With \<open>N\<close> the configured maximum and a log within \<open>N\<close>: one \<^verbatim>\<open>send_message\<close>
  leaves the log alone when it rejects the request, and otherwise puts the new message
  last and, when the log was full, drops the first; after any run of
  \<^verbatim>\<open>send_message\<close> events the log is within \<open>N\<close> and holds the newest \<open>N\<close> of its
  old content followed by the accepted messages, in their order; so when \<open>N + 1\<close>
  messages were accepted on an empty log, the log is the last \<open>N\<close> of them in the order
  they came, and the first one (when no later message equals it) is gone.
\<close>

theorem message_log_bounded_fifo:
  assumes "length (messages s) \<le> MAX_STORED_MESSAGES cfg"
  shows
  "messages (fst (send_message cfg clk s i md cb)) =
     (case request_message cfg clk s i md of
        None \<Rightarrow> messages s
      | Some m \<Rightarrow> if length (messages s) < MAX_STORED_MESSAGES cfg then messages s @ [m]
                  else tl (messages s @ [m])) \<and>
   length (messages (send_messages cfg rs s)) \<le> MAX_STORED_MESSAGES cfg \<and>
   messages (send_messages cfg rs s)
     = drop (length (messages s) + length (logged cfg rs s) - MAX_STORED_MESSAGES cfg)
         (messages s @ logged cfg rs s) \<and>
   (messages s = [] \<and> logged cfg rs s = m # rest \<and> length rest = MAX_STORED_MESSAGES cfg \<longrightarrow>
      messages (send_messages cfg rs s) = rest \<and>
      (m \<notin> set rest \<longrightarrow> m \<notin> set (messages (send_messages cfg rs s))))"
proof -
  have one: "messages (fst (send_message cfg clk s i md cb)) =
     (case request_message cfg clk s i md of
        None \<Rightarrow> messages s
      | Some m \<Rightarrow> if length (messages s) < MAX_STORED_MESSAGES cfg then messages s @ [m]
                  else tl (messages s @ [m]))"
    by (simp add: send_message_logs store_message_push_shift split: option.splits)
  have len: "length (messages (send_messages cfg rs s)) \<le> MAX_STORED_MESSAGES cfg"
    using assms by (simp add: send_messages_log append_all_length)
  have all: "messages (send_messages cfg rs s)
     = drop (length (messages s) + length (logged cfg rs s) - MAX_STORED_MESSAGES cfg)
         (messages s @ logged cfg rs s)"
    using assms by (simp add: send_messages_log append_all_drop)
  have fifo: "messages (send_messages cfg rs s) = rest"
    if "messages s = []" "logged cfg rs s = m # rest" "length rest = MAX_STORED_MESSAGES cfg"
    using that by (simp add: all)
  from one len all fifo show ?thesis by simp
qed

theorem message_log_bounded_fifo_witness:
  "length (messages ex_abc) \<le> MAX_STORED_MESSAGES ex_cfg \<and> messages ex_abc = [] \<and>
   logged ex_cfg [ex_send ''one'', ex_send ''two'', ex_send ''tri''] ex_abc
     = ex_logged ''one'' # [ex_logged ''two'', ex_logged ''tri''] \<and>
   length [ex_logged ''two'', ex_logged ''tri''] = MAX_STORED_MESSAGES ex_cfg \<and>
   ex_logged ''one'' \<notin> set [ex_logged ''two'', ex_logged ''tri''] \<and>
   messages (send_messages ex_cfg [ex_send ''one'', ex_send ''two'', ex_send ''tri''] ex_abc)
     = [ex_logged ''two'', ex_logged ''tri''] \<and>
   ex_logged ''one''
     \<notin> set (messages (send_messages ex_cfg [ex_send ''one'', ex_send ''two'', ex_send ''tri''] ex_abc))"
proof -
  have h1: "length (messages ex_abc) \<le> MAX_STORED_MESSAGES ex_cfg"
    by (simp add: ex_defs socket_join_def)
  have h2: "messages ex_abc = []"
    by (simp add: ex_defs socket_join_def)
  have rq: "request_message ex_cfg ex_clk ex_abc ''a'' (ex_text t) = Some (ex_logged t)"
    if "trim t = t" "t \<noteq> []" "length t \<le> 5" for t
  proof -
    have f: "trimmed_field (param_default (ex_text t)) ''text'' [] = Inr t"
      using that by (simp add: trimmed_field_def param_default_def js_or_def ex_text_def)
    have g: "js_get (param_default (ex_text t)) ''room'' = Inr JUndefined"
      by (simp add: param_default_def ex_text_def)
    have d: "sdata ex_abc ''a'' = \<lparr>d_username = None, d_room = None\<rparr>"
      by (simp add: ex_defs socket_join_def)
    show ?thesis
      using that
      by (simp add: request_message_def f g d ex_logged_def username_or_anonymous_def
          resolve_room_def js_or_def ex_cfg_def ex_clk_def MAX_MESSAGE_LENGTH_def number_or_def)
  qed
  have t: "trim ''one'' = ''one''" "trim ''two'' = ''two''" "trim ''tri'' = ''tri''"
    by (simp_all add: trim_def is_ws_simps)
  have h3: "logged ex_cfg [ex_send ''one'', ex_send ''two'', ex_send ''tri''] ex_abc
     = ex_logged ''one'' # [ex_logged ''two'', ex_logged ''tri'']"
    by (simp add: logged_Cons ex_send_def rq t) (simp add: logged_def map_filter_simps)
  have h4: "length [ex_logged ''two'', ex_logged ''tri''] = MAX_STORED_MESSAGES ex_cfg"
    by (simp add: ex_defs)
  have h5: "ex_logged ''one'' \<notin> set [ex_logged ''two'', ex_logged ''tri'']"
    by (simp add: ex_logged_def)
  note inst = message_log_bounded_fifo [OF h1, of ex_clk "''a''" JNull True
      "[ex_send ''one'', ex_send ''two'', ex_send ''tri'']" "ex_logged ''one''"
      "[ex_logged ''two'', ex_logged ''tri'']"]
  from inst h2 h3 h4 h5 have
    "messages (send_messages ex_cfg [ex_send ''one'', ex_send ''two'', ex_send ''tri''] ex_abc)
       = [ex_logged ''two'', ex_logged ''tri''] \<and>
     ex_logged ''one''
       \<notin> set (messages (send_messages ex_cfg [ex_send ''one'', ex_send ''two'', ex_send ''tri''] ex_abc))"
    by blast
  with h1 h2 h3 h4 h5 show ?thesis by blast
qed

subsection \<open>Deliveries in a trace\<close>

lemma emits_of_append: "emits_of (xs @ ys) = emits_of xs @ emits_of ys"
  by (induction xs rule: emits_of.induct) simp_all

lemma emits_of_emit_to: "emits_of (emit_to ts ev) = map (\<lambda>x. (x, ev)) ts"
  unfolding emit_to_def by (induction ts) simp_all

lemma emits_of_call_ack: "emits_of (call_ack cb i a) = []"
  by (simp add: call_ack_def)

lemmas emits_simps = emits_of_append emits_of_emit_to emits_of_call_ack

subsection \<open>Rejected messages\<close>

text \<open>
  C5. A \<^verbatim>\<open>send_message\<close> whose trimmed text is longer than the configured maximum
  leaves the whole state as it was (so the log is not appended to), delivers nothing to
  any socket, and its only output is the acknowledgement
  \<^verbatim>\<open>{ ok: false, error: 'Message too long' }\<close> to a caller that gave a callback.
\<close>

theorem too_long_rejected:
  assumes "trimmed_field (param_default md) ''text'' [] = Inr text"
    and "length text > MAX_MESSAGE_LENGTH cfg"
  shows "send_message cfg clk s i md ack = (s, call_ack ack i (Ack_error ''Message too long'')) \<and>
         messages (fst (send_message cfg clk s i md ack)) = messages s \<and>
         emits_of (snd (send_message cfg clk s i md ack)) = [] \<and>
         acks_of (snd (send_message cfg clk s i md True)) = [(i, Ack_error ''Message too long'')]"
proof -
  from assms(2) have "text \<noteq> []" by auto
  with assms have "send_message cfg clk s i md cb = (s, call_ack cb i (Ack_error ''Message too long''))"
    for cb
    by (simp add: send_message_def send_message_try_def catch_ack_def)
  then show ?thesis by (simp add: call_ack_def)
qed

theorem too_long_rejected_witness:
  "trimmed_field (param_default (ex_text ''  hello! '')) ''text'' [] = Inr ''hello!'' \<and>
   length ''hello!'' > MAX_MESSAGE_LENGTH ex_cfg \<and>
   send_message ex_cfg ex_clk ex_abc ''a'' (ex_text ''  hello! '') True
     = (ex_abc, [Ack ''a'' (Ack_error ''Message too long'')])"
proof -
  have h1: "trimmed_field (param_default (ex_text ''  hello! '')) ''text'' [] = Inr ''hello!''"
    by (simp add: ex_text_def js_defs)
  have h2: "length ''hello!'' > MAX_MESSAGE_LENGTH ex_cfg"
    by (simp add: ex_defs)
  show ?thesis
    using h1 h2 too_long_rejected [OF h1 h2, of ex_clk ex_abc "''a''" True]
    by (simp add: call_ack_def)
qed

subsection \<open>Private messages to a target that is not registered\<close>

text \<open>
  C7 as stated fails: the payload is validated before the registry is consulted, so an
  unregistered target with an empty text is answered \<^verbatim>\<open>Invalid payload\<close>.
\<close>

theorem unknown_target_counterexample:
  "\<not> map_has (users ex_abc) ''ghost'' \<and>
   snd (private_message ex_clk ex_abc ''a'' (ex_private ''ghost'' '''') True)
     = [Ack ''a'' (Ack_error ''Invalid payload'')] \<and>
   acks_of (snd (private_message ex_clk ex_abc ''a'' (ex_private ''ghost'' '''') True))
     \<noteq> [(''a'', Ack_error ''Recipient not connected'')]"
  by (simp add: private_message_def private_message_try_def ex_defs js_defs io_defs
      socket_join_def)

text \<open>
  C7, amended. A \<^verbatim>\<open>private_message\<close> whose trimmed target is not a key of
  \<^verbatim>\<open>users\<close> changes nothing, delivers to no socket and is acknowledged with a
  failure; the failure is \<^verbatim>\<open>Recipient not connected\<close> when the target and the text
  both trim to something, and nothing but that acknowledgement is output then.
\<close>

theorem unknown_target_rejected:
  assumes "trimmed_field (param_default p) ''to'' [] = Inr to"
    and "\<not> map_has (users s) to"
  shows "fst (private_message clk s i p ack) = s \<and>
         emits_of (snd (private_message clk s i p ack)) = [] \<and>
         (\<exists>e. acks_of (snd (private_message clk s i p True)) = [(i, Ack_error e)]) \<and>
         (trimmed_field (param_default p) ''text'' [] = Inr text \<and> to \<noteq> [] \<and> text \<noteq> [] \<longrightarrow>
            snd (private_message clk s i p ack)
              = call_ack ack i (Ack_error ''Recipient not connected''))"
  using assms
  by (auto simp: private_message_def private_message_try_def catch_ack_def call_ack_def
      split: sum.splits)

theorem unknown_target_rejected_witness:
  "trimmed_field (param_default (ex_private '' ghost'' ''psst'')) ''to'' [] = Inr ''ghost'' \<and>
   \<not> map_has (users ex_abc) ''ghost'' \<and>
   trimmed_field (param_default (ex_private '' ghost'' ''psst'')) ''text'' [] = Inr ''psst'' \<and>
   private_message ex_clk ex_abc ''a'' (ex_private '' ghost'' ''psst'') True
     = (ex_abc, [Ack ''a'' (Ack_error ''Recipient not connected'')])"
proof -
  have h1: "trimmed_field (param_default (ex_private '' ghost'' ''psst'')) ''to'' [] = Inr ''ghost''"
    by (simp add: ex_private_def js_defs)
  have h2: "\<not> map_has (users ex_abc) ''ghost''"
    by (simp add: ex_defs map_has_def socket_join_def)
  have h3: "trimmed_field (param_default (ex_private '' ghost'' ''psst'')) ''text'' [] = Inr ''psst''"
    by (simp add: ex_private_def js_defs)
  show ?thesis
    using h1 h2 h3 unknown_target_rejected [OF h1 h2, of ex_clk "''a''" True "''psst''"]
    by (simp add: call_ack_def prod_eq_iff)
qed

subsection \<open>The display name\<close>

lemma map_of_map_set: "map_of (map_set k v bs) k = Some v"
  by (induction bs) auto

text \<open>What \<^verbatim>\<open>user_join\<close> does with a name that does not trim to nothing.\<close>

lemma user_join_stores:
  assumes "trimmed_field (param_default p) ''username'' ''Anonymous'' = Inr t" and "t \<noteq> []"
  shows "d_username (sdata (fst (user_join s i p cb)) i) = Some (slice0 50 t)"
    and "map_of (users (fst (user_join s i p cb))) i = Some \<lparr>u_id = i, u_username = slice0 50 t\<rparr>"
    and "thrown (user_join_try s i p True) = None \<longrightarrow>
           acks_of (snd (user_join s i p True)) = [(i, Ack_ok_id i)]"
    and "acks_of (snd (user_join s i p True)) \<noteq> [(i, Ack_error ''Invalid username'')]"
proof -
  from assms(2) have ne: "slice0 50 t \<noteq> []" by (cases t) (simp_all add: slice0_def)
  show "d_username (sdata (fst (user_join s i p cb)) i) = Some (slice0 50 t)"
    using assms(1) ne
    by (auto simp: user_join_def user_join_try_def catch_ack_def Let_def socket_join_def
        split: sum.splits prod.splits)
  show "map_of (users (fst (user_join s i p cb))) i = Some \<lparr>u_id = i, u_username = slice0 50 t\<rparr>"
    using assms(1) ne
    by (auto simp: user_join_def user_join_try_def catch_ack_def Let_def socket_join_def
        map_of_map_set split: sum.splits prod.splits)
  show "thrown (user_join_try s i p True) = None \<longrightarrow>
           acks_of (snd (user_join s i p True)) = [(i, Ack_ok_id i)]"
    using assms(1) ne
    by (auto simp: user_join_def user_join_try_def catch_ack_def Let_def thrown_def acks_simps
        split: sum.splits prod.splits)
  show "acks_of (snd (user_join s i p True)) \<noteq> [(i, Ack_error ''Invalid username'')]"
    using assms(1) ne
    by (auto simp: user_join_def user_join_try_def catch_ack_def Let_def acks_simps
        split: sum.splits prod.splits)
qed

lemma user_join_invalid:
  assumes "trimmed_field (param_default p) ''username'' ''Anonymous'' = Inr []"
  shows "user_join s i p cb = (s, call_ack cb i (Ack_error ''Invalid username''))"
  using assms by (simp add: user_join_def user_join_try_def catch_ack_def slice0_def)

text \<open>
  C6 as stated fails: the empty name trims to the empty string, and the handler does not
  fail on it but takes the name \<^verbatim>\<open>Anonymous\<close>.
\<close>

theorem invalid_username_counterexample:
  "trim '''' = [] \<and>
   acks_of (snd (user_join ex_abc ''a'' (ex_name '''') True)) = [(''a'', Ack_ok_id ''a'')] \<and>
   d_username (sdata (fst (user_join ex_abc ''a'' (ex_name '''') True)) ''a'') = Some ''Anonymous''"
proof -
  have t: "trimmed_field (param_default (ex_name '''')) ''username'' ''Anonymous'' = Inr ''Anonymous''"
    by (simp add: ex_name_def js_defs)
  have n: "thrown (user_join_try ex_abc ''a'' (ex_name '''') True) = None"
    by (simp add: user_join_try_def thrown_def ex_name_def js_defs Let_def)
  from user_join_stores [OF t, of ex_abc "''a''"] n show ?thesis
    by (simp add: trim_def slice0_def)
qed

text \<open>
  C6, amended. For a payload whose \<^verbatim>\<open>username\<close> is a string \<open>n\<close> (or is missing,
  which counts as the empty string): the handler answers \<^verbatim>\<open>Invalid username\<close>
  exactly when \<open>n\<close> is not empty and trims to the empty string; an empty or missing name
  is stored as \<^verbatim>\<open>Anonymous\<close>; any other name is stored trimmed and cut to at most 50
  characters, in \<^verbatim>\<open>socket.data\<close> and in \<^verbatim>\<open>users\<close>; and in both of these cases
  the acknowledgement is the success one unless the handler throws later (on the room).
\<close>

theorem username_validation:
  assumes "js_get (param_default p) ''username'' = Inr v"
    and "v = JStr n \<or> (v = JUndefined \<and> n = [])"
  shows "(acks_of (snd (user_join s i p True)) = [(i, Ack_error ''Invalid username'')])
           = (n \<noteq> [] \<and> trim n = []) \<and>
         (n = [] \<longrightarrow> d_username (sdata (fst (user_join s i p cb)) i) = Some ''Anonymous'') \<and>
         (trim n \<noteq> [] \<longrightarrow>
            d_username (sdata (fst (user_join s i p cb)) i) = Some (take 50 (trim n)) \<and>
            map_of (users (fst (user_join s i p cb))) i
              = Some \<lparr>u_id = i, u_username = take 50 (trim n)\<rparr> \<and>
            length (take 50 (trim n)) \<le> 50) \<and>
         ((n = [] \<or> trim n \<noteq> []) \<and> thrown (user_join_try s i p True) = None \<longrightarrow>
            acks_of (snd (user_join s i p True)) = [(i, Ack_ok_id i)])"
proof (cases "n = []")
  case True
  with assms have t: "trimmed_field (param_default p) ''username'' ''Anonymous'' = Inr ''Anonymous''"
    by (auto simp: trimmed_field_def js_or_def trim_def is_ws_simps)
  have ne: "''Anonymous'' \<noteq> []" by simp
  from user_join_stores [OF t ne, of s i] True show ?thesis
    by (simp add: slice0_def trim_def)
next
  case False
  with assms have t: "trimmed_field (param_default p) ''username'' ''Anonymous'' = Inr (trim n)"
    by (auto simp: trimmed_field_def js_or_def)
  show ?thesis
  proof (cases "trim n = []")
    case True
    with t have "trimmed_field (param_default p) ''username'' ''Anonymous'' = Inr []" by simp
    from user_join_invalid [OF this] True False show ?thesis
      by (simp add: call_ack_def)
  next
    case ne: False
    from user_join_stores [OF t ne, of s i] False ne show ?thesis
      by (simp add: slice0_def)
  qed
qed

theorem username_validation_witness:
  "js_get (param_default (ex_name ''  Alice '')) ''username'' = Inr (JStr ''  Alice '') \<and>
   trim ''  Alice '' = ''Alice'' \<and>
   thrown (user_join_try ex_abc ''a'' (ex_name ''  Alice '') True) = None \<and>
   acks_of (snd (user_join ex_abc ''a'' (ex_name ''  Alice '') True)) = [(''a'', Ack_ok_id ''a'')] \<and>
   d_username (sdata (fst (user_join ex_abc ''a'' (ex_name ''  Alice '') True)) ''a'') = Some ''Alice'' \<and>
   acks_of (snd (user_join ex_abc ''a'' (ex_name ''   '') True))
     = [(''a'', Ack_error ''Invalid username'')]"
proof -
  have h1: "js_get (param_default (ex_name ''  Alice '')) ''username'' = Inr (JStr ''  Alice '')"
    by (simp add: ex_name_def param_default_def)
  have h2: "trim ''  Alice '' = ''Alice''"
    by (simp add: trim_def is_ws_simps)
  have h3: "thrown (user_join_try ex_abc ''a'' (ex_name ''  Alice '') True) = None"
    by (simp add: user_join_try_def thrown_def ex_name_def js_defs Let_def)
  have k1: "js_get (param_default (ex_name ''   '')) ''username'' = Inr (JStr ''   '')"
    by (simp add: ex_name_def param_default_def)
  have k2: "trim ''   '' = []"
    by (simp add: trim_def is_ws_simps)
  show ?thesis
    using h1 h2 h3 k2
      username_validation [OF h1, of "''  Alice ''" ex_abc "''a''" True]
      username_validation [OF k1, of "''   ''" ex_abc "''a''" True]
    by simp
qed

subsection \<open>Joining and leaving rooms\<close>

text \<open>The two handlers on a room name that passes the validation, written out.\<close>

lemma join_room_valid:
  assumes "B \<noteq> []"
  shows "join_room s i (JStr B) cb =
    (s\<lparr>rooms := (rooms s)(B := (if i \<in> set (rooms s B) then rooms s B else rooms s B @ [i])),
       sdata := (sdata s)(i := (sdata s i)\<lparr>d_room := Some B\<rparr>)\<rparr>,
     emit_to (filter (\<lambda>x. x \<notin> set (if i = B then (if i \<in> set (rooms s B) then rooms s B else rooms s B @ [i]) else rooms s i)
                          \<and> x \<in> set (sockets s))
                (if i \<in> set (rooms s B) then rooms s B else rooms s B @ [i]))
       (Ev_user_joined_room (username_or_anonymous s i) i B)
     @ call_ack cb i Ack_ok)"
  using assms
  by (simp add: join_room_def join_room_try_def catch_ack_def invalid_room_def Let_def
      socket_join_def socket_to_def username_or_anonymous_def)

lemma leave_room_valid:
  assumes "B \<noteq> []"
  shows "leave_room s i (JStr B) cb =
    (s\<lparr>rooms := (rooms s)(B := removeAll i (rooms s B)),
       sdata := (sdata s)(i := (sdata s i)\<lparr>d_room := None\<rparr>)\<rparr>,
     emit_to (filter (\<lambda>x. x \<notin> set (if i = B then removeAll i (rooms s B) else rooms s i)
                          \<and> x \<in> set (sockets s))
                (removeAll i (rooms s B)))
       (Ev_user_left_room (username_or_anonymous s i) i B)
     @ call_ack cb i Ack_ok)"
  using assms
  by (simp add: leave_room_def leave_room_try_def catch_ack_def invalid_room_def Let_def
      socket_leave_def socket_to_def username_or_anonymous_def)

lemma ex_in_A_eval:
  "sockets ex_in_A = [''a'', ''b'', ''c'']"
  "rooms ex_in_A = (\<lambda>_. [])(''a'' := [''a''], ''b'' := [''b''], ''c'' := [''c''], ''A'' := [''b'', ''a''])"
  "d_room (sdata ex_in_A ''a'') = Some ''A''"
  "d_username (sdata ex_in_A ''a'') = None"
  "users ex_in_A = []"
  "messages ex_in_A = []"
  "typingUsers ex_in_A = []"
  by (simp_all add: ex_in_A_def join_room_valid ex_defs socket_join_def)

text \<open>
  C2 as stated fails. In the example \<open>b\<close> and \<open>a\<close> are in room \<open>A\<close>; when \<open>a\<close> joins
  \<open>B\<close> it is afterwards in the member sets of both rooms, and the only output is the
  acknowledgement: no notice of leaving \<open>A\<close> reaches \<open>b\<close>.
\<close>

theorem join_second_room_counterexample:
  "d_room (sdata ex_in_A ''a'') = Some ''A'' \<and>
   rooms ex_in_A ''A'' = [''b'', ''a''] \<and>
   rooms (fst (join_room ex_in_A ''a'' (JStr ''B'') True)) ''A'' = [''b'', ''a''] \<and>
   rooms (fst (join_room ex_in_A ''a'' (JStr ''B'') True)) ''B'' = [''a''] \<and>
   snd (join_room ex_in_A ''a'' (JStr ''B'') True) = [Ack ''a'' Ack_ok]"
  by (simp add: join_room_valid ex_in_A_eval emit_to_def call_ack_def)

text \<open>
  C2, amended. When a socket that is in the member set of room \<open>A\<close> sends
  \<^verbatim>\<open>join_room\<close> with another valid room \<open>B\<close>, the member set of \<open>A\<close> is not touched,
  so that the socket is in both sets afterwards; the stored current room becomes \<open>B\<close>;
  and the output is the notice of joining \<open>B\<close> to the other members of \<open>B\<close> followed by
  the acknowledgement, with no notice of leaving any room.
\<close>

theorem join_room_keeps_previous:
  assumes "B \<noteq> []" and "A \<noteq> B" and "i \<in> set (rooms s A)"
  shows "rooms (fst (join_room s i (JStr B) cb)) A = rooms s A \<and>
         i \<in> set (rooms (fst (join_room s i (JStr B) cb)) A) \<and>
         i \<in> set (rooms (fst (join_room s i (JStr B) cb)) B) \<and>
         d_room (sdata (fst (join_room s i (JStr B) cb)) i) = Some B \<and>
         snd (join_room s i (JStr B) cb)
           = emit_to (socket_to (fst (join_room s i (JStr B) cb)) i B)
               (Ev_user_joined_room (username_or_anonymous s i) i B)
             @ call_ack cb i Ack_ok \<and>
         (\<forall>x u j r. (x, Ev_user_left_room u j r) \<notin> set (emits_of (snd (join_room s i (JStr B) cb))))"
proof -
  have outs: "snd (join_room s i (JStr B) cb)
           = emit_to (socket_to (fst (join_room s i (JStr B) cb)) i B)
               (Ev_user_joined_room (username_or_anonymous s i) i B)
             @ call_ack cb i Ack_ok"
    using assms(1) by (simp add: join_room_valid socket_to_def)
  have none: "(x, Ev_user_left_room u j r) \<notin> set (emits_of (snd (join_room s i (JStr B) cb)))"
    for x u j r
    unfolding outs by (auto simp: emits_simps)
  from assms have st: "rooms (fst (join_room s i (JStr B) cb)) A = rooms s A \<and>
         i \<in> set (rooms (fst (join_room s i (JStr B) cb)) B) \<and>
         d_room (sdata (fst (join_room s i (JStr B) cb)) i) = Some B"
    by (simp add: join_room_valid)
  from st assms(3) outs none show ?thesis by simp
qed

theorem join_room_keeps_previous_witness:
  "''B'' \<noteq> [] \<and> ''A'' \<noteq> ''B'' \<and> ''a'' \<in> set (rooms ex_in_A ''A'') \<and>
   ''a'' \<in> set (rooms (fst (join_room ex_in_A ''a'' (JStr ''B'') True)) ''A'') \<and>
   ''a'' \<in> set (rooms (fst (join_room ex_in_A ''a'' (JStr ''B'') True)) ''B'') \<and>
   d_room (sdata (fst (join_room ex_in_A ''a'' (JStr ''B'') True)) ''a'') = Some ''B''"
proof -
  have h1: "''B'' \<noteq> []" by simp
  have h2: "''A'' \<noteq> ''B''" by simp
  have h3: "''a'' \<in> set (rooms ex_in_A ''A'')" by (simp add: ex_in_A_eval)
  show ?thesis
    using h1 h2 h3 join_room_keeps_previous [OF h1 h2 h3, of True] by simp
qed

text \<open>
  C10. When the stored current room of a socket is \<open>A\<close>, \<^verbatim>\<open>leave_room\<close> with any
  valid room \<open>B\<close> clears the stored room; when \<open>B\<close> is not \<open>A\<close> the member set of \<open>A\<close>
  is not touched, so the socket stays a member. After that a room that is not given in the
  payload resolves to \<^verbatim>\<open>null\<close>: such a \<^verbatim>\<open>send_message\<close> carries no room and goes to
  every connected socket, and such a \<^verbatim>\<open>typing\<close> sends the global list.
\<close>

theorem leave_room_clears_stored_room:
  assumes "d_room (sdata s i) = Some A" and "B \<noteq> []"
  shows "d_room (sdata (fst (leave_room s i (JStr B) cb)) i) = None \<and>
         (B \<noteq> A \<longrightarrow> rooms (fst (leave_room s i (JStr B) cb)) A = rooms s A) \<and>
         (\<not> truthy pr \<longrightarrow> resolve_room pr (fst (leave_room s i (JStr B) cb)) i = JNull) \<and>
         (trimmed_field (param_default md) ''text'' [] = Inr text \<and> text \<noteq> [] \<and>
          length text \<le> MAX_MESSAGE_LENGTH cfg \<and>
          js_get (param_default md) ''room'' = Inr pr \<and> \<not> truthy pr \<longrightarrow>
            emits_of (snd (send_message cfg clk (fst (leave_room s i (JStr B) cb)) i md ack))
              = map (\<lambda>x. (x, Ev_receive_message
                       \<lparr>m_id = now clk + rnd clk, m_text = text,
                        m_sender = username_or_anonymous s i, m_senderId = i,
                        m_timestamp = iso clk, m_room = JNull, m_isPrivate = False\<rparr>))
                  (sockets s)) \<and>
         (js_get (param_default tp) ''isTyping'' = Inr tv \<and>
          js_get (param_default tp) ''room'' = Inr pr \<and> \<not> truthy pr \<longrightarrow>
            snd (typing (fst (leave_room s i (JStr B) cb)) i tp)
              = broadcastTypingUsers (fst (typing (fst (leave_room s i (JStr B) cb)) i tp)))"
proof -
  let ?s = "fst (leave_room s i (JStr B) cb)"
  have cleared: "d_room (sdata ?s i) = None"
    using assms(2) by (simp add: leave_room_valid)
  have kept: "B \<noteq> A \<Longrightarrow> rooms ?s A = rooms s A"
    using assms(2) by (simp add: leave_room_valid)
  have resolved: "\<not> truthy pr \<Longrightarrow> resolve_room pr ?s i = JNull"
    using cleared by (simp add: resolve_room_def js_or_def)
  have same: "sockets ?s = sockets s" "username_or_anonymous ?s i = username_or_anonymous s i"
    using assms(2) by (simp_all add: leave_room_valid username_or_anonymous_def)
  have sent: "emits_of (snd (send_message cfg clk ?s i md ack))
              = map (\<lambda>x. (x, Ev_receive_message
                       \<lparr>m_id = now clk + rnd clk, m_text = text,
                        m_sender = username_or_anonymous s i, m_senderId = i,
                        m_timestamp = iso clk, m_room = JNull, m_isPrivate = False\<rparr>))
                  (sockets s)"
    if "trimmed_field (param_default md) ''text'' [] = Inr text" "text \<noteq> []"
       "length text \<le> MAX_MESSAGE_LENGTH cfg"
       "js_get (param_default md) ''room'' = Inr pr" "\<not> truthy pr"
    using that resolved same
    by (simp add: send_message_def send_message_try_def catch_ack_def Let_def io_emit_def
        emits_simps)
  have typed: "snd (typing ?s i tp) = broadcastTypingUsers (fst (typing ?s i tp))"
    if "js_get (param_default tp) ''isTyping'' = Inr tv"
       "js_get (param_default tp) ''room'' = Inr pr" "\<not> truthy pr"
    using that resolved
    by (simp add: typing_def typing_try_def catch_log_def Let_def)
  from cleared kept resolved sent typed show ?thesis by blast
qed

theorem leave_room_clears_stored_room_witness:
  "d_room (sdata ex_in_A ''a'') = Some ''A'' \<and> ''B'' \<noteq> [] \<and> ''B'' \<noteq> ''A'' \<and>
   d_room (sdata (fst (leave_room ex_in_A ''a'' (JStr ''B'') True)) ''a'') = None \<and>
   rooms (fst (leave_room ex_in_A ''a'' (JStr ''B'') True)) ''A'' = [''b'', ''a''] \<and>
   map fst (emits_of (snd (send_message ex_cfg ex_clk
       (fst (leave_room ex_in_A ''a'' (JStr ''B'') True)) ''a'' (ex_text ''hi'') True)))
     = [''a'', ''b'', ''c''] \<and>
   snd (typing (fst (leave_room ex_in_A ''a'' (JStr ''B'') True)) ''a''
          (JObj [(''isTyping'', JBool True)]))
     = [Emit ''a'' (Ev_typing_users [''Anonymous'']), Emit ''b'' (Ev_typing_users [''Anonymous'']),
        Emit ''c'' (Ev_typing_users [''Anonymous''])]"
proof -
  let ?s = "fst (leave_room ex_in_A ''a'' (JStr ''B'') True)"
  have h1: "d_room (sdata ex_in_A ''a'') = Some ''A''" by (simp add: ex_in_A_eval)
  have h2: "''B'' \<noteq> []" by simp
  have h3: "''B'' \<noteq> ''A''" by simp
  have m1: "trimmed_field (param_default (ex_text ''hi'')) ''text'' [] = Inr ''hi''"
    by (simp add: ex_text_def js_defs)
  have m2: "length ''hi'' \<le> MAX_MESSAGE_LENGTH ex_cfg" by (simp add: ex_defs)
  have m3: "js_get (param_default (ex_text ''hi'')) ''room'' = Inr JUndefined"
    by (simp add: ex_text_def js_defs)
  have t1: "js_get (param_default (JObj [(''isTyping'', JBool True)])) ''isTyping'' = Inr (JBool True)"
    by (simp add: js_defs)
  have t2: "js_get (param_default (JObj [(''isTyping'', JBool True)])) ''room'' = Inr JUndefined"
    by (simp add: js_defs)
  have ty: "fst (typing ?s ''a'' (JObj [(''isTyping'', JBool True)]))
              = ?s\<lparr>typingUsers := [(''a'', ''Anonymous'')]\<rparr>"
    by (simp add: typing_def typing_try_def catch_log_def Let_def js_defs leave_room_valid
        resolve_room_def username_or_anonymous_def ex_in_A_eval)
  have sk: "sockets ?s = [''a'', ''b'', ''c'']"
    by (simp add: leave_room_valid ex_in_A_eval)
  note inst = leave_room_clears_stored_room [OF h1 h2, of True JUndefined
        "ex_text ''hi''" "''hi''" ex_cfg ex_clk True "JObj [(''isTyping'', JBool True)]" "JBool True"]
  from inst have c1: "d_room (sdata ?s ''a'') = None" by blast
  from inst h3 have c2: "rooms ?s ''A'' = rooms ex_in_A ''A''" by blast
  from inst m1 m2 m3 have c3: "emits_of (snd (send_message ex_cfg ex_clk ?s ''a'' (ex_text ''hi'') True))
      = map (\<lambda>x. (x, Ev_receive_message
                       \<lparr>m_id = now ex_clk + rnd ex_clk, m_text = ''hi'',
                        m_sender = username_or_anonymous ex_in_A ''a'', m_senderId = ''a'',
                        m_timestamp = iso ex_clk, m_room = JNull, m_isPrivate = False\<rparr>))
                  (sockets ex_in_A)"
    by simp
  from inst t1 t2 have c4: "snd (typing ?s ''a'' (JObj [(''isTyping'', JBool True)]))
      = broadcastTypingUsers (fst (typing ?s ''a'' (JObj [(''isTyping'', JBool True)])))"
    by simp
  have c4': "snd (typing ?s ''a'' (JObj [(''isTyping'', JBool True)]))
     = [Emit ''a'' (Ev_typing_users [''Anonymous'']), Emit ''b'' (Ev_typing_users [''Anonymous'']),
        Emit ''c'' (Ev_typing_users [''Anonymous''])]"
    unfolding c4 ty
    by (simp add: broadcastTypingUsers_def io_emit_def emit_to_def map_values_def sk)
  have c3': "map fst (emits_of (snd (send_message ex_cfg ex_clk ?s ''a'' (ex_text ''hi'') True)))
     = [''a'', ''b'', ''c'']"
    unfolding c3 by (simp add: ex_in_A_eval)
  from h1 h2 h3 c1 c2 c3' c4' show ?thesis by (simp add: ex_in_A_eval)
qed

subsection \<open>A connection that has not announced a name\<close>






















subsection \<open>The roster after \<^verbatim>\<open>user_join\<close>\<close>

lemma map_set_keys_distinct: "distinct (map fst bs) \<Longrightarrow> distinct (map fst (map_set k v bs))"
proof (induction bs)
  case Nil
  then show ?case by simp
next
  case (Cons b bs)
  have "fst ` set (map_set k v bs) \<subseteq> insert k (fst ` set bs)"
    by (induction bs) auto
  with Cons show ?case by auto
qed

lemma map_set_entries:
  "list_all (\<lambda>b. u_id (snd b) = fst b) bs \<Longrightarrow> u_id v = k \<Longrightarrow>
     list_all (\<lambda>b. u_id (snd b) = fst b) (map_set k v bs)"
  by (induction bs) auto

lemma no_entry_for_other_key:
  "list_all (\<lambda>b. u_id (snd b) = fst b) bs \<Longrightarrow> k \<notin> fst ` set bs \<Longrightarrow>
     filter (\<lambda>u. u_id u = k) (map snd bs) = []"
  by (induction bs) auto

lemma one_entry_after_set:
  "distinct (map fst bs) \<Longrightarrow> list_all (\<lambda>b. u_id (snd b) = fst b) bs \<Longrightarrow> u_id v = k \<Longrightarrow>
     filter (\<lambda>u. u_id u = k) (map snd (map_set k v bs)) = [v]"
proof (induction bs)
  case Nil
  then show ?case by simp
next
  case (Cons b bs)
  show ?case
  proof (cases "fst b = k")
    case True
    with Cons.prems have "k \<notin> fst ` set bs" and "list_all (\<lambda>b. u_id (snd b) = fst b) bs"
      by auto
    then have "filter (\<lambda>u. u_id u = k) (map snd bs) = []"
      using no_entry_for_other_key by blast
    with True Cons.prems(3) show ?thesis by simp
  next
    case False
    with Cons show ?thesis by auto
  qed
qed

text \<open>The state \<^verbatim>\<open>user_join\<close> reaches when it acknowledges a success.\<close>

lemma user_join_success:
  assumes "acks_of (snd (user_join s i p True)) = [(i, Ack_ok_id i)]"
  shows "\<exists>name rv. name \<noteq> [] \<and> js_get (param_default p) ''room'' = Inr rv \<and>
           (truthy rv \<longrightarrow> (\<exists>r. ToString rv = Inr r \<and>
              fst (user_join s i p True)
                = s\<lparr>sdata := (sdata s)(i := (sdata s i)\<lparr>d_username := Some name, d_room := Some r\<rparr>),
                    users := map_set i \<lparr>u_id = i, u_username = name\<rparr> (users s),
                    rooms := (rooms s)(r := (if i \<in> set (rooms s r) then rooms s r
                                               else rooms s r @ [i]))\<rparr>)) \<and>
           (\<not> truthy rv \<longrightarrow>
              fst (user_join s i p True)
                = s\<lparr>sdata := (sdata s)(i := (sdata s i)\<lparr>d_username := Some name\<rparr>),
                    users := map_set i \<lparr>u_id = i, u_username = name\<rparr> (users s)\<rparr>) \<and>
           (\<forall>x \<in> set (sockets s).
              Emit x (Ev_user_list (map_values (users (fst (user_join s i p True)))))
                \<in> set (snd (user_join s i p True)))"
proof -
  let ?pl = "param_default p"
  note defs = user_join_def user_join_try_def catch_ack_def call_ack_def Let_def
  obtain t where t: "trimmed_field ?pl ''username'' ''Anonymous'' = Inr t"
    using assms by (cases "trimmed_field ?pl ''username'' ''Anonymous''") (simp_all add: defs)
  have ne: "slice0 50 t \<noteq> []"
    using assms t by (auto simp: defs)
  obtain rv where rv: "js_get ?pl ''room'' = Inr rv"
    using assms t ne by (cases "js_get ?pl ''room''") (simp_all add: defs)
  show ?thesis
  proof (cases "truthy rv")
    case True
    obtain r where r: "ToString rv = Inr r"
      using assms t ne rv True by (cases "ToString rv") (simp_all add: defs)
    have st: "fst (user_join s i p True)
        = s\<lparr>sdata := (sdata s)(i := (sdata s i)\<lparr>d_username := Some (slice0 50 t), d_room := Some r\<rparr>),
            users := map_set i \<lparr>u_id = i, u_username = slice0 50 t\<rparr> (users s),
            rooms := (rooms s)(r := (if i \<in> set (rooms s r) then rooms s r else rooms s r @ [i]))\<rparr>"
      using t ne rv True r by (simp add: defs socket_join_def)
    have em: "Emit x (Ev_user_list (map_values (users (fst (user_join s i p True)))))
                \<in> set (snd (user_join s i p True))" if "x \<in> set (sockets s)" for x
      using t ne rv True r that
      by (simp add: defs socket_join_def broadcastUserList_def io_emit_def emit_to_def)
    from ne rv True r st em show ?thesis by blast
  next
    case False
    have st: "fst (user_join s i p True)
        = s\<lparr>sdata := (sdata s)(i := (sdata s i)\<lparr>d_username := Some (slice0 50 t)\<rparr>),
            users := map_set i \<lparr>u_id = i, u_username = slice0 50 t\<rparr> (users s)\<rparr>"
      using t ne rv False by (simp add: defs)
    have em: "Emit x (Ev_user_list (map_values (users (fst (user_join s i p True)))))
                \<in> set (snd (user_join s i p True))" if "x \<in> set (sockets s)" for x
      using t ne rv False that
      by (simp add: defs broadcastUserList_def io_emit_def emit_to_def)
    from ne rv False st em show ?thesis by blast
  qed
qed

text \<open>
  C9 as stated fails on both counts. A socket in room \<open>A\<close> that sends \<^verbatim>\<open>user_join\<close>
  without a room is still in room \<open>A\<close> afterwards; and when \<open>b\<close> takes the name that
  \<open>a\<close> has, the roster holds that name twice.
\<close>

theorem roster_counterexample:
  "acks_of (snd (user_join ex_in_A ''a'' (ex_name ''Alice'') True)) = [(''a'', Ack_ok_id ''a'')] \<and>
   d_room (sdata (fst (user_join ex_in_A ''a'' (ex_name ''Alice'') True)) ''a'') = Some ''A'' \<and>
   acks_of (snd (user_join (fst (user_join ex_in_A ''a'' (ex_name ''Alice'') True)) ''b''
                   (ex_name ''Alice'') True)) = [(''b'', Ack_ok_id ''b'')] \<and>
   map u_username (roster (fst (user_join (fst (user_join ex_in_A ''a'' (ex_name ''Alice'') True))
                                  ''b'' (ex_name ''Alice'') True)))
     = [''Alice'', ''Alice'']"
  by (simp add: user_join_def user_join_try_def ex_name_def js_defs Let_def catch_ack_def
      acks_simps ex_in_A_eval roster_def map_values_def)

text \<open>
  C9, amended. After a \<^verbatim>\<open>user_join\<close> that acknowledges success: the stored current
  room is the room given in the payload when one is given, and otherwise what it was
  before the call; the roster has exactly one entry with the id of the socket, and that
  entry carries the new name (other entries may carry the same name); the registry keeps
  its shape; and the roster is what the \<^verbatim>\<open>user_list\<close> broadcast carries to every
  connected socket.
\<close>

theorem roster_after_user_join:
  assumes "acks_of (snd (user_join s i p True)) = [(i, Ack_ok_id i)]"
    and "users_ok s"
  shows "(\<exists>rv. js_get (param_default p) ''room'' = Inr rv \<and>
           (truthy rv \<longrightarrow> (\<exists>r. ToString rv = Inr r \<and>
              d_room (sdata (fst (user_join s i p True)) i) = Some r)) \<and>
           (\<not> truthy rv \<longrightarrow>
              d_room (sdata (fst (user_join s i p True)) i) = d_room (sdata s i))) \<and>
         (\<exists>name. d_username (sdata (fst (user_join s i p True)) i) = Some name \<and>
            filter (\<lambda>u. u_id u = i) (roster (fst (user_join s i p True)))
              = [\<lparr>u_id = i, u_username = name\<rparr>]) \<and>
         users_ok (fst (user_join s i p True)) \<and>
         (\<forall>x \<in> set (sockets (fst (user_join s i p True))).
            Emit x (Ev_user_list (roster (fst (user_join s i p True))))
              \<in> set (snd (user_join s i p True)))"
proof -
  let ?s = "fst (user_join s i p True)"
  from user_join_success [OF assms(1)] obtain name rv where
    rv: "js_get (param_default p) ''room'' = Inr rv"
    and t: "truthy rv \<longrightarrow> (\<exists>r. ToString rv = Inr r \<and>
              ?s = s\<lparr>sdata := (sdata s)(i := (sdata s i)\<lparr>d_username := Some name, d_room := Some r\<rparr>),
                    users := map_set i \<lparr>u_id = i, u_username = name\<rparr> (users s),
                    rooms := (rooms s)(r := (if i \<in> set (rooms s r) then rooms s r
                                               else rooms s r @ [i]))\<rparr>)"
    and f: "\<not> truthy rv \<longrightarrow>
              ?s = s\<lparr>sdata := (sdata s)(i := (sdata s i)\<lparr>d_username := Some name\<rparr>),
                    users := map_set i \<lparr>u_id = i, u_username = name\<rparr> (users s)\<rparr>"
    and e: "\<forall>x \<in> set (sockets s). Emit x (Ev_user_list (map_values (users ?s)))
                \<in> set (snd (user_join s i p True))"
    by blast
  have u: "users ?s = map_set i \<lparr>u_id = i, u_username = name\<rparr> (users s)"
    and n: "d_username (sdata ?s i) = Some name"
    and k: "sockets ?s = sockets s"
    using t f by (cases "truthy rv"; auto)+
  have room: "(truthy rv \<longrightarrow> (\<exists>r. ToString rv = Inr r \<and> d_room (sdata ?s i) = Some r)) \<and>
              (\<not> truthy rv \<longrightarrow> d_room (sdata ?s i) = d_room (sdata s i))"
    using t f by (cases "truthy rv"; auto)
  have one: "filter (\<lambda>u. u_id u = i) (roster ?s) = [\<lparr>u_id = i, u_username = name\<rparr>]"
    using assms(2) by (simp add: roster_def map_values_def u users_ok_def one_entry_after_set)
  have ok: "users_ok ?s"
    using assms(2) by (simp add: users_ok_def u map_set_keys_distinct map_set_entries)
  from rv room n one ok e k show ?thesis
    by (auto simp: roster_def)
qed

theorem roster_after_user_join_witness:
  "acks_of (snd (user_join ex_abc ''a'' (ex_name ''Alice'') True)) = [(''a'', Ack_ok_id ''a'')] \<and>
   users_ok ex_abc \<and>
   d_room (sdata (fst (user_join ex_abc ''a'' (ex_name ''Alice'') True)) ''a'') = None \<and>
   roster (fst (user_join ex_abc ''a'' (ex_name ''Alice'') True))
     = [\<lparr>u_id = ''a'', u_username = ''Alice''\<rparr>] \<and>
   users_ok (fst (user_join ex_abc ''a'' (ex_name ''Alice'') True)) \<and>
   Emit ''c'' (Ev_user_list (roster (fst (user_join ex_abc ''a'' (ex_name ''Alice'') True))))
     \<in> set (snd (user_join ex_abc ''a'' (ex_name ''Alice'') True))"
proof -
  let ?s = "fst (user_join ex_abc ''a'' (ex_name ''Alice'') True)"
  have h1: "acks_of (snd (user_join ex_abc ''a'' (ex_name ''Alice'') True)) = [(''a'', Ack_ok_id ''a'')]"
    by (simp add: user_join_def user_join_try_def ex_name_def js_defs Let_def catch_ack_def
        acks_simps)
  have h2: "users_ok ex_abc"
    by (simp add: users_ok_def ex_defs socket_join_def)
  have r: "js_get (param_default (ex_name ''Alice'')) ''room'' = Inr JUndefined"
    by (simp add: ex_name_def js_defs)
  have d: "d_room (sdata ex_abc ''a'') = None" "sockets ex_abc = [''a'', ''b'', ''c'']"
    by (simp_all add: ex_defs socket_join_def)
  have ro: "roster ?s = [\<lparr>u_id = ''a'', u_username = ''Alice''\<rparr>]"
    by (simp add: user_join_def user_join_try_def ex_name_def js_defs Let_def catch_ack_def
        roster_def map_values_def ex_defs socket_join_def)
  have sk: "sockets ?s = [''a'', ''b'', ''c'']"
    by (simp add: user_join_def user_join_try_def ex_name_def js_defs Let_def catch_ack_def d)
  note inst = roster_after_user_join [OF h1 h2]
  from inst r d have c1: "d_room (sdata ?s ''a'') = None" by auto
  from inst have c2: "users_ok ?s" by blast
  from inst sk have c3: "Emit ''c'' (Ev_user_list (roster ?s))
      \<in> set (snd (user_join ex_abc ''a'' (ex_name ''Alice'') True))" by simp
  from h1 h2 c1 ro c2 c3 show ?thesis by blast
qed

subsection \<open>Who receives a private message\<close>

lemma ex_alice_bob_eval:
  "sockets ex_alice_bob = [''a'', ''b'', ''c'']"
  "rooms ex_alice_bob = (\<lambda>_. [])(''a'' := [''a''], ''b'' := [''b''], ''c'' := [''c''])"
  "users ex_alice_bob = [(''a'', \<lparr>u_id = ''a'', u_username = ''Alice''\<rparr>),
                         (''b'', \<lparr>u_id = ''b'', u_username = ''Bob''\<rparr>)]"
  "d_username (sdata ex_alice_bob ''a'') = Some ''Alice''"
  "d_username (sdata ex_alice_bob ''c'') = None"
  by (simp_all add: ex_alice_bob_def user_join_def user_join_try_def ex_name_def js_defs Let_def
      catch_ack_def ex_defs socket_join_def)

lemma ex_eavesdrop_eval:
  "sockets ex_eavesdrop = [''a'', ''b'', ''c'']"
  "rooms ex_eavesdrop ''b'' = [''b'', ''c'']"
  "users ex_eavesdrop = [(''a'', \<lparr>u_id = ''a'', u_username = ''Alice''\<rparr>),
                         (''b'', \<lparr>u_id = ''b'', u_username = ''Bob''\<rparr>)]"
  "d_username (sdata ex_eavesdrop ''a'') = Some ''Alice''"
  by (simp_all add: ex_eavesdrop_def join_room_valid ex_alice_bob_eval)

text \<open>
  Where the room named by the target's id holds the target alone, a private message that
  passes the checks is delivered twice: to the target, then to the sender.
\<close>

lemma private_message_two_deliveries:
  assumes "trimmed_field (param_default p) ''to'' [] = Inr to"
    and "trimmed_field (param_default p) ''text'' [] = Inr text"
    and "to \<noteq> []" and "text \<noteq> []" and "map_has (users s) to"
    and "rooms s to = [to]" and "to \<in> set (sockets s)"
  shows "map fst (emits_of (snd (private_message clk s i p ack))) = [to, i]"
  using assms
  by (simp add: private_message_def private_message_try_def catch_ack_def Let_def emits_simps
      io_to_def adapter_get_def uniq_def)

text \<open>
  C8 fails on the code. Room names and socket ids share one namespace, and
  \<^verbatim>\<open>join_room\<close> accepts any string: after \<open>c\<close> joined the room named \<open>b\<close>, the private
  message of \<open>a\<close> to the registered target \<open>b\<close> is acknowledged as a success and delivered
  three times, to \<open>b\<close>, to \<open>c\<close> and to \<open>a\<close>.
\<close>

theorem private_message_overheard:
  "map_has (users ex_eavesdrop) ''b'' \<and>
   acks_of (snd (private_message ex_clk ex_eavesdrop ''a'' (ex_private ''b'' ''psst'') True))
     = [(''a'', Ack_ok_message 1700000000007 ''2024-01-01T00:00:00.000Z'')] \<and>
   emits_of (snd (private_message ex_clk ex_eavesdrop ''a'' (ex_private ''b'' ''psst'') True))
     = map (\<lambda>x. (x, Ev_private_message
              \<lparr>p_id = 1700000000007, p_text = ''psst'', p_sender = ''Alice'', p_senderId = ''a'',
               p_recipientId = ''b'', p_timestamp = ''2024-01-01T00:00:00.000Z'',
               p_isPrivate = True\<rparr>))
         [''b'', ''c'', ''a'']"
  by (simp add: private_message_def private_message_try_def ex_private_def js_defs Let_def
      catch_ack_def acks_simps emits_simps ex_eavesdrop_eval map_has_def io_to_def
      adapter_get_def uniq_def username_or_anonymous_def ex_clk_def)

end
